theory Spec2Isabelle
  imports Complex_Main "HOL-Library.Log_Nat"
begin

section \<open>Currency exchange service: rate cache and conversion engine\<close>

text \<open>
  A shallow embedding of \<^verbatim>\<open>src/app.py\<close>: the hourly cache key, the memoised rate fetch
  (\<^verbatim>\<open>functools.lru_cache(maxsize=128)\<close> around \<^verbatim>\<open>get_exchange_rates\<close>), and the two
  request handlers \<^verbatim>\<open>convert_currency\<close> and \<^verbatim>\<open>get_rates\<close>. Everything the handlers read
  from outside (query arguments, the wall clock, the pricing provider's answer) is a
  parameter; everything they change (the memo table) is a state that is passed through.
\<close>

subsection \<open>Python floats\<close>

text \<open>
  A Python \<^verbatim>\<open>float\<close> is an IEEE-754 binary64 value. A finite one is modelled by the rational
  it denotes, the others by their own constructors. The two zeros are identified: Python
  compares them equal and no branch of the program tells them apart.
\<close>

datatype pyfloat = Finite rat | PosInf | NegInf | NaN

definition pow2 :: "int \<Rightarrow> rat" where
  "pow2 e = (if 0 \<le> e then 2 ^ nat e else 1 / 2 ^ nat (- e))"

text \<open>\<open>ilog2 a\<close> is the binary exponent of a positive rational: \<open>2^e \<le> a < 2^(e+1)\<close>.\<close>

definition ilog2 :: "rat \<Rightarrow> int" where
  "ilog2 a =
     (let (p, d) = quotient_of a;
          k = bitlen p - bitlen d
      in if (if 0 \<le> k then d * 2 ^ nat k \<le> p else d \<le> p * 2 ^ nat (- k)) then k else k - 1)"

definition round_half_even :: "rat \<Rightarrow> int" where
  "round_half_even x =
     (let n = \<lfloor>x\<rfloor>; f = x - of_int n
      in if f < 1 / 2 then n
         else if 1 / 2 < f then n + 1
         else if even n then n else n + 1)"

text \<open>
  Rounding a rational to the nearest binary64 value, ties to even: 53 significant bits,
  least exponent \<open>-1022\<close> (below it the spacing stays \<open>2^-1074\<close>: subnormals), and a result
  of magnitude \<open>2^1024\<close> or more overflows to an infinity.
\<close>

definition round_double :: "rat \<Rightarrow> pyfloat" where
  "round_double q =
     (if q = 0 then Finite 0
      else let a = \<bar>q\<bar>;
               e = max (ilog2 a) (- 1022);
               u = pow2 (e - 52);
               v = of_int (round_half_even (a / u)) * u
           in if pow2 1024 \<le> v then (if 0 < q then PosInf else NegInf)
              else Finite (if 0 < q then v else - v))"

text \<open>\<^verbatim>\<open>x <= 0\<close> on a float: every comparison with NaN is false.\<close>

fun float_le_zero :: "pyfloat \<Rightarrow> bool" where
  "float_le_zero (Finite q) = (q \<le> 0)"
| "float_le_zero PosInf = False"
| "float_le_zero NegInf = True"
| "float_le_zero NaN = False"

fun float_gt_zero :: "pyfloat \<Rightarrow> bool" where
  "float_gt_zero (Finite q) = (0 < q)"
| "float_gt_zero PosInf = True"
| "float_gt_zero NegInf = False"
| "float_gt_zero NaN = False"

text \<open>\<^verbatim>\<open>x * y\<close> on floats: the exact product rounded once; it never raises.\<close>

fun float_mul :: "pyfloat \<Rightarrow> pyfloat \<Rightarrow> pyfloat" where
  "float_mul NaN _ = NaN"
| "float_mul _ NaN = NaN"
| "float_mul (Finite a) (Finite b) = round_double (a * b)"
| "float_mul (Finite a) PosInf = (if a = 0 then NaN else if 0 < a then PosInf else NegInf)"
| "float_mul (Finite a) NegInf = (if a = 0 then NaN else if 0 < a then NegInf else PosInf)"
| "float_mul PosInf (Finite b) = (if b = 0 then NaN else if 0 < b then PosInf else NegInf)"
| "float_mul NegInf (Finite b) = (if b = 0 then NaN else if 0 < b then NegInf else PosInf)"
| "float_mul PosInf PosInf = PosInf"
| "float_mul PosInf NegInf = NegInf"
| "float_mul NegInf PosInf = NegInf"
| "float_mul NegInf NegInf = PosInf"

text \<open>
  \<^verbatim>\<open>round(x, 2)\<close>: infinities and NaN round to themselves; a finite value is rounded
  correctly (on its exact value, ties to even) to two decimal places and the decimal
  result is converted back to the nearest float.
\<close>

fun round2 :: "pyfloat \<Rightarrow> pyfloat" where
  "round2 (Finite q) = round_double (of_int (round_half_even (q * 100)) / 100)"
| "round2 x = x"

subsection \<open>\<^verbatim>\<open>float(str)\<close>\<close>

text \<open>
  The text accepted by Python's \<^verbatim>\<open>float\<close>, for ASCII input: surrounding whitespace
  (space, tab, line feed, vertical tab, form feed, carriage return) is dropped; an
  optional sign; then \<^verbatim>\<open>inf\<close>, \<^verbatim>\<open>infinity\<close> or \<^verbatim>\<open>nan\<close> in any letter case, or a
  decimal number with an optional fraction and an optional exponent, where single
  underscores may separate digits. Anything else is a \<^verbatim>\<open>ValueError\<close>, here \<open>None\<close>.
\<close>

definition is_space :: "char \<Rightarrow> bool" where
  "is_space c = (let n = (of_char c :: nat) in (9 \<le> n \<and> n \<le> 13) \<or> n = 32)"

definition is_digit :: "char \<Rightarrow> bool" where
  "is_digit c = (let n = (of_char c :: nat) in 48 \<le> n \<and> n \<le> 57)"

definition digit_val :: "char \<Rightarrow> int" where
  "digit_val c = of_char c - 48"

definition strip :: "string \<Rightarrow> string" where
  "strip s = rev (dropWhile is_space (rev (dropWhile is_space s)))"

definition lower_char :: "char \<Rightarrow> char" where
  "lower_char c = (let n = (of_char c :: nat) in if 65 \<le> n \<and> n \<le> 90 then char_of (n + 32) else c)"

definition upper_char :: "char \<Rightarrow> char" where
  "upper_char c = (let n = (of_char c :: nat) in if 97 \<le> n \<and> n \<le> 122 then char_of (n - 32) else c)"

text \<open>\<^verbatim>\<open>str.upper()\<close> and \<^verbatim>\<open>str.lower()\<close> on ASCII text.\<close>

definition upper :: "string \<Rightarrow> string" where
  "upper s = map upper_char s"

definition lower :: "string \<Rightarrow> string" where
  "lower s = map lower_char s"

text \<open>
  A digit part is a digit followed by digits, each optionally preceded by one
  underscore. \<open>digitpart prev s\<close> reads \<open>s\<close> knowing the character before it and returns
  the digits without the underscores.
\<close>

fun digitpart :: "char \<Rightarrow> string \<Rightarrow> string option" where
  "digitpart prev [] = (if is_digit prev then Some [] else None)"
| "digitpart prev (c # cs) =
     (if is_digit c then map_option ((#) c) (digitpart c cs)
      else if c = CHR ''_'' \<and> is_digit prev then digitpart c cs
      else None)"

definition digits :: "string \<Rightarrow> string option" where
  "digits s = (case s of [] \<Rightarrow> None | c # cs \<Rightarrow> if is_digit c then digitpart CHR ''_'' s else None)"

definition digits_value :: "string \<Rightarrow> int" where
  "digits_value ds = foldl (\<lambda>n c. 10 * n + digit_val c) 0 ds"

text \<open>The mantissa: \<^verbatim>\<open>[digitpart] "." digitpart | digitpart ["."]\<close>, as a rational.\<close>

definition mantissa :: "string \<Rightarrow> rat option" where
  "mantissa s =
     (let ip = takeWhile (\<lambda>c. c \<noteq> CHR ''.'') s;
          rest = dropWhile (\<lambda>c. c \<noteq> CHR ''.'') s
      in case rest of
           [] \<Rightarrow> map_option (\<lambda>ds. of_int (digits_value ds)) (digits ip)
         | _ # fp \<Rightarrow>
             (if ip = [] then
                map_option (\<lambda>fs. of_int (digits_value fs) / 10 ^ length fs) (digits fp)
              else case digits ip of
                None \<Rightarrow> None
              | Some ds \<Rightarrow>
                  (if fp = [] then Some (of_int (digits_value ds))
                   else map_option
                     (\<lambda>fs. of_int (digits_value ds) + of_int (digits_value fs) / 10 ^ length fs)
                     (digits fp))))"

text \<open>The exponent after \<^verbatim>\<open>e\<close> or \<^verbatim>\<open>E\<close>: an optional sign and a digit part.\<close>

definition exponent :: "string \<Rightarrow> int option" where
  "exponent s =
     (case s of
        [] \<Rightarrow> None
      | c # cs \<Rightarrow>
          if c = CHR ''-'' then map_option (\<lambda>ds. - digits_value ds) (digits cs)
          else if c = CHR ''+'' then map_option (\<lambda>ds. digits_value ds) (digits cs)
          else map_option (\<lambda>ds. digits_value ds) (digits s))"

definition pow10 :: "int \<Rightarrow> rat" where
  "pow10 e = (if 0 \<le> e then 10 ^ nat e else 1 / 10 ^ nat (- e))"

definition floatnumber :: "string \<Rightarrow> rat option" where
  "floatnumber s =
     (let is_e = (\<lambda>c. c = CHR ''e'' \<or> c = CHR ''E'');
          m = takeWhile (\<lambda>c. \<not> is_e c) s;
          rest = dropWhile (\<lambda>c. \<not> is_e c) s
      in case rest of
           [] \<Rightarrow> mantissa m
         | _ # ex \<Rightarrow>
             (case mantissa m of
                None \<Rightarrow> None
              | Some q \<Rightarrow> map_option (\<lambda>e. q * pow10 e) (exponent ex)))"

definition absfloatvalue :: "string \<Rightarrow> pyfloat option" where
  "absfloatvalue s =
     (if lower s = ''inf'' \<or> lower s = ''infinity'' then Some PosInf
      else if lower s = ''nan'' then Some NaN
      else map_option round_double (floatnumber s))"

fun float_neg :: "pyfloat \<Rightarrow> pyfloat" where
  "float_neg (Finite q) = Finite (- q)"
| "float_neg PosInf = NegInf"
| "float_neg NegInf = PosInf"
| "float_neg NaN = NaN"

definition float_of_str :: "string \<Rightarrow> pyfloat option" where
  "float_of_str s =
     (case strip s of
        [] \<Rightarrow> None
      | c # cs \<Rightarrow>
          if c = CHR ''-'' then map_option float_neg (absfloatvalue cs)
          else if c = CHR ''+'' then absfloatvalue cs
          else absfloatvalue (c # cs))"

subsection \<open>Wall-clock time\<close>

text \<open>
  A naive \<^verbatim>\<open>datetime\<close>, as \<^verbatim>\<open>datetime.now()\<close> returns it. The calendar date is kept as its
  proleptic Gregorian ordinal (\<^verbatim>\<open>date.toordinal()\<close>, from 1 to 3652059), which is all the
  arithmetic of \<^verbatim>\<open>datetime\<close> uses of it.
\<close>

record datetime =
  ordinal :: int
  hour :: int
  minute :: int
  second :: int
  microsecond :: int

definition MAXORDINAL :: int where
  "MAXORDINAL = 3652059"

definition valid_datetime :: "datetime \<Rightarrow> bool" where
  "valid_datetime d \<longleftrightarrow>
     1 \<le> ordinal d \<and> ordinal d \<le> MAXORDINAL \<and>
     0 \<le> hour d \<and> hour d < 24 \<and>
     0 \<le> minute d \<and> minute d < 60 \<and>
     0 \<le> second d \<and> second d < 60 \<and>
     0 \<le> microsecond d \<and> microsecond d < 1000000"

text \<open>A \<^verbatim>\<open>timedelta\<close> is kept normalised: seconds within a day, microseconds within a second.\<close>

record timedelta =
  days :: int
  seconds :: int
  microseconds :: int

definition td_of_us :: "int \<Rightarrow> timedelta" where
  "td_of_us t =
     \<lparr>days = t div 86400000000,
      seconds = (t mod 86400000000) div 1000000,
      microseconds = t mod 1000000\<rparr>"

definition td_us :: "timedelta \<Rightarrow> int" where
  "td_us t = (days t * 86400 + seconds t) * 1000000 + microseconds t"

text \<open>\<^verbatim>\<open>timedelta(days=d, hours=h, minutes=m, seconds=s, microseconds=us)\<close> on integers.\<close>

definition mk_timedelta :: "int \<Rightarrow> int \<Rightarrow> int \<Rightarrow> int \<Rightarrow> int \<Rightarrow> timedelta" where
  "mk_timedelta d h m s us = td_of_us ((((d * 24 + h) * 60 + m) * 60 + s) * 1000000 + us)"

datatype py_exception = OverflowError | AttributeError

text \<open>
  \<^verbatim>\<open>datetime - timedelta\<close>: the datetime is turned into a timedelta since ordinal 0, the
  difference is taken, and the result is split into date and time again; a day outside
  \<open>1..MAXORDINAL\<close> raises \<^verbatim>\<open>OverflowError\<close>.
\<close>

definition datetime_sub :: "datetime \<Rightarrow> timedelta \<Rightarrow> py_exception + datetime" where
  "datetime_sub d t =
     (let delta = td_of_us
            (td_us (mk_timedelta (ordinal d) (hour d) (minute d) (second d) (microsecond d))
              - td_us t);
          h = seconds delta div 3600;
          rem = seconds delta mod 3600
      in if 0 < days delta \<and> days delta \<le> MAXORDINAL
         then Inr \<lparr>ordinal = days delta, hour = h, minute = rem div 60, second = rem mod 60,
                   microsecond = microseconds delta\<rparr>
         else Inl OverflowError)"

text \<open>
  \<^verbatim>\<open>isoformat()\<close> prints the date and the time of day of a datetime; different datetimes
  print differently. The printed text is modelled by the datetime it prints.
\<close>

datatype iso_text = Iso datetime

definition isoformat :: "datetime \<Rightarrow> iso_text" where
  "isoformat d = Iso d"

text \<open>\<^verbatim>\<open>get_cache_key()\<close>, with the reading of \<^verbatim>\<open>datetime.now()\<close> as its argument.\<close>

definition get_cache_key :: "datetime \<Rightarrow> py_exception + iso_text" where
  "get_cache_key now =
     (case datetime_sub now
             (mk_timedelta 0 0 (minute now mod 60) (second now) (microsecond now)) of
        Inl e \<Rightarrow> Inl e
      | Inr cache_period \<Rightarrow> Inr (isoformat cache_period))"

subsection \<open>Supported currencies\<close>

definition SUPPORTED_CURRENCIES :: "string list" where
  "SUPPORTED_CURRENCIES =
     [''GBP'', ''USD'', ''EUR'', ''JPY'', ''AUD'', ''CAD'', ''CHF'', ''CNY'']"

definition validate_currency :: "string \<Rightarrow> bool" where
  "validate_currency currency \<longleftrightarrow> upper currency \<in> set SUPPORTED_CURRENCIES"

subsection \<open>The pricing provider and the memoised fetch\<close>

text \<open>
  A rate table is the dict that \<^verbatim>\<open>response.json()\<close> builds for \<^verbatim>\<open>conversion_rates\<close>, as an
  association list; \<^verbatim>\<open>k in rates\<close> and \<^verbatim>\<open>rates[k]\<close> are \<open>map_of\<close>. The rates are JSON
  numbers, taken as floats.
\<close>

type_synonym rates = "(string \<times> pyfloat) list"

text \<open>
  What one outbound request can come back with. \<open>RequestFailed\<close> is any
  \<^verbatim>\<open>requests.exceptions.RequestException\<close>: no connection, a timeout, an HTTP error status
  (\<^verbatim>\<open>raise_for_status\<close>). \<open>NotAnObject\<close> is a JSON body that is not an object, on which
  \<^verbatim>\<open>data.get\<close> raises \<^verbatim>\<open>AttributeError\<close>. \<open>Body\<close> is a JSON object, with its \<^verbatim>\<open>result\<close> field
  (when it is a string) and its \<^verbatim>\<open>conversion_rates\<close> field.
\<close>

datatype json_rates = Missing | JsonNull | JsonObject rates

datatype http_outcome =
    RequestFailed
  | NotAnObject
  | Body (result: "string option") (conversion_rates: json_rates)

text \<open>The body of \<^verbatim>\<open>get_exchange_rates\<close>, without the decorator. \<open>Inr None\<close> is \<^verbatim>\<open>return None\<close>.\<close>

fun get_exchange_rates_body :: "http_outcome \<Rightarrow> py_exception + rates option" where
  "get_exchange_rates_body RequestFailed = Inr None"
| "get_exchange_rates_body NotAnObject = Inl AttributeError"
| "get_exchange_rates_body (Body r c) =
     (if r = Some ''success''
      then (case c of
              Missing \<Rightarrow> Inr (Some [])
            | JsonNull \<Rightarrow> Inr None
            | JsonObject t \<Rightarrow> Inr (Some t))
      else Inr None)"

text \<open>
  The provider answers the \<open>n\<close>-th outbound request, made for a base currency, with an
  outcome of its own choosing.
\<close>

type_synonym provider = "nat \<Rightarrow> string \<Rightarrow> http_outcome"

text \<open>
  The process state: the memo table of \<^verbatim>\<open>lru_cache\<close>, most recently used entry first; and
  two logs that the program does not keep, for stating properties: how often the memoised
  function was called, and the outbound requests made so far with their outcomes.
\<close>

record state =
  cache :: "((string \<times> iso_text) \<times> rates option) list"
  lookups :: nat
  calls :: "(string \<times> http_outcome) list"

definition initial_state :: state where
  "initial_state = \<lparr>cache = [], lookups = 0, calls = []\<rparr>"

definition maxsize :: nat where
  "maxsize = 128"

text \<open>
  \<^verbatim>\<open>@lru_cache(maxsize=128)\<close> around the body. A hit returns the stored result and makes the
  entry the most recent one. A miss runs the body; a result it returns, \<^verbatim>\<open>None\<close> included, is
  stored as the most recent entry, dropping the least recent one beyond \<open>maxsize\<close>; an
  exception it raises passes through and nothing is stored.
\<close>

definition get_exchange_rates ::
  "provider \<Rightarrow> string \<Rightarrow> iso_text \<Rightarrow> state \<Rightarrow> (py_exception + rates option) \<times> state" where
  "get_exchange_rates P base_currency timestamp_key s =
     (let key = (base_currency, timestamp_key);
          s0 = s\<lparr>lookups := Suc (lookups s)\<rparr>
      in case map_of (cache s) key of
           Some v \<Rightarrow>
             (Inr v, s0\<lparr>cache := (key, v) # filter (\<lambda>e. fst e \<noteq> key) (cache s)\<rparr>)
         | None \<Rightarrow>
             (let outcome = P (length (calls s)) base_currency;
                  s1 = s0\<lparr>calls := calls s @ [(base_currency, outcome)]\<rparr>
              in case get_exchange_rates_body outcome of
                   Inl e \<Rightarrow> (Inl e, s1)
                 | Inr v \<Rightarrow> (Inr v, s1\<lparr>cache := take maxsize ((key, v) # cache s)\<rparr>)))"

subsection \<open>The request handlers\<close>

text \<open>\<^verbatim>\<open>request.args\<close>, and \<^verbatim>\<open>request.args.get(name, default)\<close>.\<close>

type_synonym args = "string \<rightharpoonup> string"

definition args_get :: "args \<Rightarrow> string \<Rightarrow> string \<Rightarrow> string" where
  "args_get a name dflt = (case a name of None \<Rightarrow> dflt | Some v \<Rightarrow> v)"

record conversion =
  from_currency :: string
  from_amount :: pyfloat
  to_currency :: string
  to_amount :: pyfloat
  exchange_rate :: pyfloat
  timestamp :: iso_text

text \<open>The responses of the two handlers; \<open>status\<close> is the HTTP status sent with each.\<close>

datatype response =
    MissingParameters
  | UnsupportedCurrency string
  | InvalidAmount
  | RatesUnavailable
  | RateNotFound string
  | Conversion conversion
  | RatesListing string rates iso_text
  | InternalServerError py_exception

fun status :: "response \<Rightarrow> nat" where
  "status MissingParameters = 400"
| "status (UnsupportedCurrency _) = 400"
| "status InvalidAmount = 400"
| "status RatesUnavailable = 503"
| "status (RateNotFound _) = 404"
| "status (Conversion _) = 200"
| "status (RatesListing _ _ _) = 200"
| "status (InternalServerError _) = 500"

text \<open>
  \<^verbatim>\<open>convert_currency()\<close>. \<open>now\<close> is the clock reading inside \<^verbatim>\<open>get_cache_key()\<close>, \<open>later\<close> the
  one taken when the response is built.
\<close>

definition convert_currency ::
  "provider \<Rightarrow> args \<Rightarrow> datetime \<Rightarrow> datetime \<Rightarrow> state \<Rightarrow> response \<times> state" where
  "convert_currency P a now later s =
     (let from_c = upper (args_get a ''from_currency'' []);
          to_c = upper (args_get a ''to_currency'' []);
          amount_str = args_get a ''amount'' []
      in if from_c = [] \<or> to_c = [] \<or> amount_str = [] then (MissingParameters, s)
         else if \<not> validate_currency from_c then (UnsupportedCurrency from_c, s)
         else if \<not> validate_currency to_c then (UnsupportedCurrency to_c, s)
         else case float_of_str amount_str of
           None \<Rightarrow> (InvalidAmount, s)
         | Some amount \<Rightarrow>
             if float_le_zero amount then (InvalidAmount, s)
             else case get_cache_key now of
               Inl e \<Rightarrow> (InternalServerError e, s)
             | Inr cache_key \<Rightarrow>
                 (case get_exchange_rates P from_c cache_key s of
                    (Inl e, s') \<Rightarrow> (InternalServerError e, s')
                  | (Inr None, s') \<Rightarrow> (RatesUnavailable, s')
                  | (Inr (Some rates), s') \<Rightarrow>
                      (case map_of rates to_c of
                         None \<Rightarrow> (RateNotFound to_c, s')
                       | Some rate \<Rightarrow>
                           (Conversion
                              \<lparr>from_currency = from_c,
                               from_amount = amount,
                               to_currency = to_c,
                               to_amount = round2 (float_mul amount rate),
                               exchange_rate = rate,
                               timestamp = isoformat later\<rparr>, s'))))"

text \<open>\<^verbatim>\<open>get_rates()\<close>, with the same two clock readings.\<close>

definition get_rates ::
  "provider \<Rightarrow> args \<Rightarrow> datetime \<Rightarrow> datetime \<Rightarrow> state \<Rightarrow> response \<times> state" where
  "get_rates P a now later s =
     (let base_currency = upper (args_get a ''base_currency'' ''GBP'')
      in if \<not> validate_currency base_currency then (UnsupportedCurrency base_currency, s)
         else case get_cache_key now of
           Inl e \<Rightarrow> (InternalServerError e, s)
         | Inr cache_key \<Rightarrow>
             (case get_exchange_rates P base_currency cache_key s of
                (Inl e, s') \<Rightarrow> (InternalServerError e, s')
              | (Inr None, s') \<Rightarrow> (RatesUnavailable, s')
              | (Inr (Some all_rates), s') \<Rightarrow>
                  (RatesListing base_currency
                     (filter (\<lambda>(currency, rate). currency \<in> set SUPPORTED_CURRENCIES) all_rates)
                     (isoformat later), s')))"

text \<open>A sequence of requests handled one after the other.\<close>

datatype request =
    Convert args datetime datetime
  | ListRates args datetime datetime

fun request_time :: "request \<Rightarrow> datetime" where
  "request_time (Convert a now later) = now"
| "request_time (ListRates a now later) = now"

fun handle :: "provider \<Rightarrow> request \<Rightarrow> state \<Rightarrow> response \<times> state" where
  "handle P (Convert a now later) s = convert_currency P a now later s"
| "handle P (ListRates a now later) s = get_rates P a now later s"

fun run :: "provider \<Rightarrow> request list \<Rightarrow> state \<Rightarrow> response list \<times> state" where
  "run P [] s = ([], s)"
| "run P (r # rs) s =
     (let (x, s1) = handle P r s; (xs, s2) = run P rs s1 in (x # xs, s2))"

subsection \<open>Sample inputs\<close>

text \<open>Three clock readings within one hour, and the start of that hour.\<close>

definition example_now :: datetime where
  "example_now = \<lparr>ordinal = 739000, hour = 10, minute = 17, second = 42, microsecond = 123456\<rparr>"

definition example_later :: datetime where
  "example_later = \<lparr>ordinal = 739000, hour = 10, minute = 17, second = 43, microsecond = 5\<rparr>"

definition example_again :: datetime where
  "example_again = \<lparr>ordinal = 739000, hour = 10, minute = 48, second = 3, microsecond = 77\<rparr>"

definition example_hour :: datetime where
  "example_hour = \<lparr>ordinal = 739000, hour = 10, minute = 0, second = 0, microsecond = 0\<rparr>"

text \<open>A provider that always answers with the same table, and one that is always down.\<close>

definition stub_provider :: "rates \<Rightarrow> provider" where
  "stub_provider t n b = Body (Some ''success'') (JsonObject t)"

definition failing_provider :: provider where
  "failing_provider n b = RequestFailed"

text \<open>Rate tables as the provider sends them: each JSON number read as the nearest float.\<close>

definition gbp_table :: rates where
  "gbp_table = [(''USD'', round_double (127 / 100))]"

definition eur_table :: rates where
  "eur_table =
     [(''USD'', round_double (11 / 10)), (''JPY'', round_double 160), (''XXX'', round_double 5)]"

text \<open>Query arguments of sample requests.\<close>

definition convert_args :: "string \<Rightarrow> string \<Rightarrow> string \<Rightarrow> args" where
  "convert_args f t a = [''from_currency'' \<mapsto> f, ''to_currency'' \<mapsto> t, ''amount'' \<mapsto> a]"

definition rates_args :: "string \<Rightarrow> args" where
  "rates_args b = [''base_currency'' \<mapsto> b]"

text \<open>A provider whose first answer is a failure and that answers with a table from then on.\<close>

definition flaky_provider :: "rates \<Rightarrow> provider" where
  "flaky_provider t n b = (if n = 0 then RequestFailed else Body (Some ''success'') (JsonObject t))"

text \<open>A provider that always answers with a JSON body that is not an object.\<close>

definition odd_provider :: provider where
  "odd_provider n b = NotAnObject"

subsection \<open>Runs within one hour\<close>

text \<open>Every request of the list reads a clock whose cache key is \<open>k\<close>.\<close>

definition same_bucket :: "iso_text \<Rightarrow> request list \<Rightarrow> bool" where
  "same_bucket k rs \<longleftrightarrow> (\<forall>r \<in> set rs. get_cache_key (request_time r) = Inr k)"

text \<open>An outbound request whose outcome the body turned into a result, not an exception.\<close>

definition returned :: "http_outcome \<Rightarrow> bool" where
  "returned outcome = (case get_exchange_rates_body outcome of Inl e \<Rightarrow> False | Inr v \<Rightarrow> True)"

text \<open>
  A log of outbound requests in which a base currency is not asked for again once a
  request for it has returned.
\<close>

fun no_repeat_after_return :: "(string \<times> http_outcome) list \<Rightarrow> bool" where
  "no_repeat_after_return [] = True"
| "no_repeat_after_return ((b, outcome) # cs) =
     ((returned outcome \<longrightarrow> b \<notin> fst ` set cs) \<and> no_repeat_after_return cs)"

text \<open>
  The same, relative to a set \<open>D\<close> of base currencies that are already settled: no
  request is for a settled base currency, and a returning request settles its own.
\<close>

fun fresh_calls :: "string set \<Rightarrow> (string \<times> http_outcome) list \<Rightarrow> bool" where
  "fresh_calls D [] = True"
| "fresh_calls D ((b, outcome) # cs) =
     (b \<notin> D \<and> fresh_calls (if returned outcome then insert b D else D) cs)"

definition settled :: "string set \<Rightarrow> (string \<times> http_outcome) list \<Rightarrow> string set" where
  "settled D cs = D \<union> {b. \<exists>outcome. (b, outcome) \<in> set cs \<and> returned outcome}"

text \<open>
  The invariant of a run within the hour of key \<open>k\<close>: the memo table starts with the
  entries used during the run, all of them for supported base currencies and for
  \<open>k\<close>, each key once; \<open>V\<close> maps every base currency looked up so far to the result stored
  for it among these entries.
\<close>

definition recent :: "iso_text \<Rightarrow> (string \<rightharpoonup> rates option) \<Rightarrow> state \<Rightarrow> bool" where
  "recent k V s \<longleftrightarrow>
     (\<exists>pre post. cache s = pre @ post
        \<and> distinct (map fst pre)
        \<and> fst ` set pre \<subseteq> (\<lambda>b. (b, k)) ` set SUPPORTED_CURRENCIES
        \<and> (\<forall>b v. V b = Some v \<longrightarrow> map_of pre (b, k) = Some v))"

section \<open>Properties\<close>

lemma td_us_of_us: "td_us (td_of_us t) = t"
proof -
  define r where "r = t mod 86400000000"
  have "(86400000000::int) = 1000000 * 86400" by simp
  then have "r mod 1000000 = t mod 1000000"
    unfolding r_def by (metis mod_mod_cancel dvd_triv_left)
  then have a: "r div 1000000 * 1000000 + t mod 1000000 = r"
    using div_mult_mod_eq [of r 1000000] by simp
  have b: "t div 86400000000 * 86400000000 + r = t"
    unfolding r_def by (rule div_mult_mod_eq)
  have "td_us (td_of_us t) = t div 86400000000 * 86400000000 + (r div 1000000 * 1000000 + t mod 1000000)"
    by (simp add: td_us_def td_of_us_def r_def algebra_simps)
  then show ?thesis using a b by simp
qed

lemma truncated_total:
  assumes "valid_datetime now"
  shows "td_us (mk_timedelta (ordinal now) (hour now) (minute now) (second now) (microsecond now))
          - td_us (mk_timedelta 0 0 (minute now mod 60) (second now) (microsecond now))
         = ordinal now * 86400000000 + hour now * 3600000000"
  using assms by (simp add: mk_timedelta_def td_us_of_us valid_datetime_def)

lemma td_of_us_hour:
  assumes "0 \<le> h" "h < 24"
  shows "td_of_us (d * 86400000000 + h * 3600000000) = \<lparr>days = d, seconds = h * 3600, microseconds = 0\<rparr>"
proof -
  have r: "0 \<le> h * 3600000000" "h * 3600000000 < 86400000000" using assms by auto
  have d: "(d * 86400000000 + h * 3600000000) div 86400000000 = d"
    using r by (simp add: div_pos_pos_trivial)
  have m: "(d * 86400000000 + h * 3600000000) mod 86400000000 = h * 3600000000"
    using r by (simp add: mod_pos_pos_trivial)
  have s: "h * 3600000000 div 1000000 = h * 3600" by simp
  have u: "(d * 86400000000 + h * 3600000000) mod 1000000 = 0" by (simp add: mod_eq_0_iff_dvd)
  show ?thesis unfolding td_of_us_def d m s u by simp
qed

lemma get_cache_key_valid:
  assumes "valid_datetime now"
  shows "get_cache_key now = Inr (isoformat (now\<lparr>minute := 0, second := 0, microsecond := 0\<rparr>))"
proof -
  have h: "0 \<le> hour now" "hour now < 24" and o: "0 < ordinal now" "ordinal now \<le> MAXORDINAL"
    using assms by (auto simp: valid_datetime_def)
  have a: "datetime_sub now (mk_timedelta 0 0 (minute now mod 60) (second now) (microsecond now))
        = Inr \<lparr>ordinal = ordinal now, hour = hour now, minute = 0, second = 0, microsecond = 0\<rparr>"
    unfolding datetime_sub_def truncated_total [OF assms] td_of_us_hour [OF h]
    using h o by (simp add: Let_def)
  have b: "now\<lparr>minute := 0, second := 0, microsecond := 0\<rparr>
      = \<lparr>ordinal = ordinal now, hour = hour now, minute = 0, second = 0, microsecond = 0\<rparr>"
    by (cases now) simp
  show ?thesis unfolding get_cache_key_def a b by simp
qed


lemma valid_example_now: "valid_datetime example_now"
  by (simp add: valid_datetime_def example_now_def MAXORDINAL_def)

lemma example_now_key: "get_cache_key example_now = Inr (isoformat example_hour)"
  using get_cache_key_valid [OF valid_example_now]
  by (simp add: example_now_def example_hour_def)

text \<open>
  C3. For every valid clock reading, the cache key is the text of that reading with minute,
  second and microsecond set to zero and the date and the hour unchanged: the start of
  the current hour. The key is a function of the clock reading alone; no earlier key
  enters its computation.
\<close>

theorem get_cache_key_top_of_hour:
  assumes "valid_datetime now"
  shows "get_cache_key now = Inr (isoformat (now\<lparr>minute := 0, second := 0, microsecond := 0\<rparr>))"
  using assms by (rule get_cache_key_valid)

theorem get_cache_key_top_of_hour_witness:
  "valid_datetime example_now \<and> get_cache_key example_now = Inr (isoformat example_hour)"
  using get_cache_key_top_of_hour [OF valid_example_now] valid_example_now
  by (simp add: example_now_def example_hour_def)

lemma upper_Nil [simp]: "upper s = [] \<longleftrightarrow> s = []"
  by (simp add: upper_def)

lemma upper_empty [simp]: "upper [] = []"
  by (simp add: upper_def)

lemma validate_currency_nonempty: "validate_currency c \<Longrightarrow> c \<noteq> []"
  by (auto simp: validate_currency_def SUPPORTED_CURRENCIES_def)

lemma float_of_str_Nil [simp]: "float_of_str [] = None"
  by (simp add: float_of_str_def strip_def)

lemma validate_GBP: "validate_currency ''GBP''"
  by code_simp

lemma upper_GBP: "upper ''GBP'' = ''GBP''"
  by code_simp

lemma get_exchange_rates_miss:
  assumes "map_of (cache s) (b, k) = None"
  shows "fst (get_exchange_rates P b k s) = get_exchange_rates_body (P (length (calls s)) b)"
  using assms by (simp add: get_exchange_rates_def Let_def split: sum.splits)

text \<open>
  C10. A rates request without a \<^verbatim>\<open>base_currency\<close> argument is handled exactly as the same
  request with \<^verbatim>\<open>base_currency=GBP\<close>, and it is not rejected: its status is not 400.
\<close>

theorem get_rates_default_base:
  assumes "a ''base_currency'' = None"
  shows "get_rates P a now later s = get_rates P (a(''base_currency'' \<mapsto> ''GBP'')) now later s
         \<and> status (fst (get_rates P a now later s)) \<noteq> 400"
proof -
  have eq: "get_rates P a now later s = get_rates P (a(''base_currency'' \<mapsto> ''GBP'')) now later s"
    using assms by (simp add: get_rates_def args_get_def)
  have "status (fst (get_rates P a now later s)) \<noteq> 400"
    using assms validate_GBP
    by (simp add: get_rates_def args_get_def upper_GBP Let_def split: sum.splits option.splits prod.splits)
  with eq show ?thesis by simp
qed

theorem get_rates_default_base_witness:
  "Map.empty ''base_currency'' = None
   \<and> get_rates (stub_provider eur_table) Map.empty example_now example_later initial_state
       = get_rates (stub_provider eur_table) (rates_args ''GBP'') example_now example_later
           initial_state
   \<and> status (fst (get_rates (stub_provider eur_table) Map.empty example_now example_later
         initial_state)) \<noteq> 400"
proof -
  have h: "(Map.empty :: args) ''base_currency'' = None"
    by simp
  show ?thesis
    unfolding rates_args_def
    using h get_rates_default_base [OF h, of "stub_provider eur_table" example_now example_later
      initial_state]
    by blast
qed

lemma get_exchange_rates_table:
  assumes "map_of (cache s) (b, k) = None"
    and "P (length (calls s)) b = Body (Some ''success'') (JsonObject t)"
  shows "fst (get_exchange_rates P b k s) = Inr (Some t)"
  using assms by (simp add: get_exchange_rates_miss)

lemma map_of_filter_supported:
  "map_of (filter (\<lambda>(c, r). c \<in> A) t) c = (if c \<in> A then map_of t c else None)"
  by (induction t) auto

text \<open>
  C7. When the base currency is supported and the memoised fetch yields a rate table, the
  rates in the response are exactly the entries of that table whose code is one of the
  eight supported codes: the same pairs, the same lookups, and no other code.
\<close>

theorem get_rates_filters_supported:
  assumes "validate_currency (upper (args_get a ''base_currency'' ''GBP''))"
    and "get_cache_key now = Inr k"
    and "fst (get_exchange_rates P (upper (args_get a ''base_currency'' ''GBP'')) k s) = Inr (Some t)"
  shows "\<exists>fr. fst (get_rates P a now later s)
              = RatesListing (upper (args_get a ''base_currency'' ''GBP'')) fr (isoformat later)
           \<and> set fr = {(c, r). (c, r) \<in> set t \<and> c \<in> set SUPPORTED_CURRENCIES}
           \<and> (\<forall>c. map_of fr c = (if c \<in> set SUPPORTED_CURRENCIES then map_of t c else None))"
proof -
  let ?fr = "filter (\<lambda>(c, r). c \<in> set SUPPORTED_CURRENCIES) t"
  have "fst (get_rates P a now later s)
          = RatesListing (upper (args_get a ''base_currency'' ''GBP'')) ?fr (isoformat later)"
    using assms by (auto simp: get_rates_def Let_def split: prod.splits)
  moreover have "set ?fr = {(c, r). (c, r) \<in> set t \<and> c \<in> set SUPPORTED_CURRENCIES}"
    by auto
  moreover have "\<forall>c. map_of ?fr c = (if c \<in> set SUPPORTED_CURRENCIES then map_of t c else None)"
    by (simp add: map_of_filter_supported)
  ultimately show ?thesis by blast
qed

theorem get_rates_filters_supported_witness:
  "validate_currency (upper (args_get (rates_args ''EUR'') ''base_currency'' ''GBP''))
   \<and> get_cache_key example_now = Inr (isoformat example_hour)
   \<and> fst (get_exchange_rates (stub_provider eur_table)
        (upper (args_get (rates_args ''EUR'') ''base_currency'' ''GBP''))
        (isoformat example_hour) initial_state) = Inr (Some eur_table)
   \<and> (\<exists>fr. fst (get_rates (stub_provider eur_table) (rates_args ''EUR'')
                 example_now example_later initial_state)
              = RatesListing ''EUR'' fr (isoformat example_later)
           \<and> map_of fr ''USD'' = Some (round_double (11 / 10))
           \<and> map_of fr ''JPY'' = Some (round_double 160)
           \<and> map_of fr ''XXX'' = None)"
proof -
  let ?a = "(rates_args ''EUR'')"
  have u: "upper (args_get ?a ''base_currency'' ''GBP'') = ''EUR''"
    by (simp add: rates_args_def args_get_def upper_def upper_char_def)
  have v: "validate_currency (upper (args_get ?a ''base_currency'' ''GBP''))"
    by code_simp
  have k: "get_cache_key example_now = Inr (isoformat example_hour)"
    by (rule example_now_key)
  have f: "fst (get_exchange_rates (stub_provider eur_table)
        (upper (args_get ?a ''base_currency'' ''GBP''))
        (isoformat example_hour) initial_state) = Inr (Some eur_table)"
    by (rule get_exchange_rates_table) (simp_all add: initial_state_def stub_provider_def)
  have x: "''XXX'' \<notin> set SUPPORTED_CURRENCIES" "''USD'' \<in> set SUPPORTED_CURRENCIES"
    "''JPY'' \<in> set SUPPORTED_CURRENCIES"
    by (simp_all add: SUPPORTED_CURRENCIES_def)
  from get_rates_filters_supported [OF v k f, of example_later]
  obtain fr where fr: "fst (get_rates (stub_provider eur_table) ?a example_now example_later initial_state)
              = RatesListing (upper (args_get ?a ''base_currency'' ''GBP'')) fr (isoformat example_later)"
    "\<forall>c. map_of fr c = (if c \<in> set SUPPORTED_CURRENCIES then map_of eur_table c else None)"
    by blast
  have "map_of fr ''USD'' = Some (round_double (11 / 10))" "map_of fr ''JPY'' = Some (round_double 160)"
    "map_of fr ''XXX'' = None"
    using fr(2) x by (simp_all add: eur_table_def)
  with fr(1) u v k f show ?thesis by auto
qed

lemma round_half_even_near: "\<bar>x - of_int (round_half_even x)\<bar> \<le> 1 / 2"
proof -
  define n where "n = \<lfloor>x\<rfloor>"
  define f where "f = x - of_int n"
  have f: "0 \<le> f" "f < 1"
    unfolding f_def n_def by linarith+
  have x: "x = of_int n + f"
    by (simp add: f_def)
  have "round_half_even x = n \<and> f \<le> 1 / 2 \<or> round_half_even x = n + 1 \<and> 1 / 2 \<le> f"
    unfolding round_half_even_def Let_def n_def [symmetric] f_def [symmetric]
    by auto
  then show ?thesis
    using f unfolding x by auto
qed

lemma round2_two_decimals:
  "\<exists>n. round2 (Finite q) = round_double (of_int n / 100) \<and> \<bar>q * 100 - of_int n\<bar> \<le> 1 / 2"
  using round_half_even_near [of "q * 100"] by auto

lemma float_gt_not_le: "float_gt_zero x \<Longrightarrow> \<not> float_le_zero x"
  by (cases x) auto

lemma float_le_iff_not_gt: "x \<noteq> NaN \<Longrightarrow> float_le_zero x \<longleftrightarrow> \<not> float_gt_zero x"
  by (cases x) auto

lemma float_of_str_nonempty: "float_of_str s = Some x \<Longrightarrow> s \<noteq> []"
  by auto

lemma convert_currency_valid:
  assumes "validate_currency (upper (args_get a ''from_currency'' []))"
    and "validate_currency (upper (args_get a ''to_currency'' []))"
    and "float_of_str (args_get a ''amount'' []) = Some amount"
    and "\<not> float_le_zero amount"
  shows "convert_currency P a now later s =
     (case get_cache_key now of
        Inl e \<Rightarrow> (InternalServerError e, s)
      | Inr cache_key \<Rightarrow>
          (case get_exchange_rates P (upper (args_get a ''from_currency'' [])) cache_key s of
             (Inl e, s') \<Rightarrow> (InternalServerError e, s')
           | (Inr None, s') \<Rightarrow> (RatesUnavailable, s')
           | (Inr (Some rates), s') \<Rightarrow>
               (case map_of rates (upper (args_get a ''to_currency'' [])) of
                  None \<Rightarrow> (RateNotFound (upper (args_get a ''to_currency'' [])), s')
                | Some rate \<Rightarrow>
                    (Conversion
                       \<lparr>from_currency = upper (args_get a ''from_currency'' []),
                        from_amount = amount,
                        to_currency = upper (args_get a ''to_currency'' []),
                        to_amount = round2 (float_mul amount rate),
                        exchange_rate = rate,
                        timestamp = isoformat later\<rparr>, s'))))"
proof -
  have "upper (args_get a ''from_currency'' []) \<noteq> []" "upper (args_get a ''to_currency'' []) \<noteq> []"
    using assms(1,2) by (auto dest: validate_currency_nonempty)
  moreover have "args_get a ''amount'' [] \<noteq> []"
    using assms(3) by auto
  ultimately show ?thesis
    using assms unfolding convert_currency_def Let_def by simp
qed

text \<open>
  C6. For a supported pair, an amount that parses to a positive float and a fetched table
  that has the target code, the response is a conversion whose target amount is
  \<^verbatim>\<open>round(amount * rate, 2)\<close> and whose exchange rate is the table's rate as it is. When the
  product is finite, the target amount is the float nearest to a number of hundredths
  that lies within half a hundredth of the product. The witness is the spec's scenario:
  100 GBP at 1.27 gives 127.0, with the rate left as the float nearest to 1.27.
\<close>

theorem convert_valid_conversion:
  assumes "validate_currency (upper (args_get a ''from_currency'' []))"
    and "validate_currency (upper (args_get a ''to_currency'' []))"
    and "float_of_str (args_get a ''amount'' []) = Some amount"
    and "float_gt_zero amount"
    and "get_cache_key now = Inr k"
    and "fst (get_exchange_rates P (upper (args_get a ''from_currency'' [])) k s) = Inr (Some t)"
    and "map_of t (upper (args_get a ''to_currency'' [])) = Some rate"
  shows "fst (convert_currency P a now later s) =
           Conversion
             \<lparr>from_currency = upper (args_get a ''from_currency'' []),
              from_amount = amount,
              to_currency = upper (args_get a ''to_currency'' []),
              to_amount = round2 (float_mul amount rate),
              exchange_rate = rate,
              timestamp = isoformat later\<rparr>
         \<and> (\<forall>q. float_mul amount rate = Finite q \<longrightarrow>
               (\<exists>n. round2 (float_mul amount rate) = round_double (of_int n / 100)
                    \<and> \<bar>q * 100 - of_int n\<bar> \<le> 1 / 2))"
proof -
  have "\<not> float_le_zero amount"
    using assms(4) by (rule float_gt_not_le)
  from convert_currency_valid [OF assms(1,2,3) this, of P now later s] assms(5,6,7)
  have "fst (convert_currency P a now later s) =
           Conversion
             \<lparr>from_currency = upper (args_get a ''from_currency'' []),
              from_amount = amount,
              to_currency = upper (args_get a ''to_currency'' []),
              to_amount = round2 (float_mul amount rate),
              exchange_rate = rate,
              timestamp = isoformat later\<rparr>"
    by (auto split: prod.splits)
  moreover have "\<forall>q. float_mul amount rate = Finite q \<longrightarrow>
               (\<exists>n. round2 (float_mul amount rate) = round_double (of_int n / 100)
                    \<and> \<bar>q * 100 - of_int n\<bar> \<le> 1 / 2)"
    using round2_two_decimals by metis
  ultimately show ?thesis by blast
qed

lemma upper_codes:
  "upper ''GBP'' = ''GBP''" "upper ''USD'' = ''USD''" "upper ''EUR'' = ''EUR''"
  "upper ''XYZ'' = ''XYZ''" "upper ''gbp'' = ''GBP''"
  by code_simp+

lemma validate_codes:
  "validate_currency ''GBP''" "validate_currency ''USD''" "validate_currency ''EUR''"
  "\<not> validate_currency ''XYZ''"
  by (simp_all add: validate_currency_def upper_codes SUPPORTED_CURRENCIES_def)

lemma convert_args_get [simp]:
  "args_get (convert_args f t x) ''from_currency'' d = f"
  "args_get (convert_args f t x) ''to_currency'' d = t"
  "args_get (convert_args f t x) ''amount'' d = x"
  by (simp_all add: convert_args_def args_get_def)

lemma float_of_str_100: "float_of_str ''100'' = Some (Finite 100)"
  by code_simp

lemma round_double_127_100: "round_double (127 / 100) = Finite (2859785763380265 / 2251799813685248)"
  by code_simp

lemma hundred_times_rate: "float_mul (Finite 100) (round_double (127 / 100)) = Finite 127"
  by code_simp

lemma round2_127: "round2 (Finite 127) = Finite 127"
  by code_simp

theorem convert_valid_conversion_witness:
  "validate_currency (upper (args_get (convert_args ''GBP'' ''USD'' ''100'') ''from_currency'' []))
   \<and> validate_currency (upper (args_get (convert_args ''GBP'' ''USD'' ''100'') ''to_currency'' []))
   \<and> float_of_str (args_get (convert_args ''GBP'' ''USD'' ''100'') ''amount'' []) = Some (Finite 100)
   \<and> float_gt_zero (Finite 100)
   \<and> get_cache_key example_now = Inr (isoformat example_hour)
   \<and> fst (get_exchange_rates (stub_provider gbp_table) ''GBP'' (isoformat example_hour)
        initial_state) = Inr (Some gbp_table)
   \<and> map_of gbp_table ''USD'' = Some (round_double (127 / 100))
   \<and> fst (convert_currency (stub_provider gbp_table) (convert_args ''GBP'' ''USD'' ''100'')
        example_now example_later initial_state) =
       Conversion
         \<lparr>from_currency = ''GBP'', from_amount = Finite 100,
          to_currency = ''USD'', to_amount = Finite 127,
          exchange_rate = round_double (127 / 100),
          timestamp = isoformat example_later\<rparr>"
proof -
  let ?a = "convert_args ''GBP'' ''USD'' ''100''"
  have f: "upper (args_get ?a ''from_currency'' []) = ''GBP''"
    and t: "upper (args_get ?a ''to_currency'' []) = ''USD''"
    by (simp_all add: upper_codes)
  have h1: "validate_currency (upper (args_get ?a ''from_currency'' []))"
    and h2: "validate_currency (upper (args_get ?a ''to_currency'' []))"
    unfolding f t by (rule validate_codes)+
  have h3: "float_of_str (args_get ?a ''amount'' []) = Some (Finite 100)"
    by (simp add: float_of_str_100)
  have h4: "float_gt_zero (Finite 100)"
    by simp
  have h6: "fst (get_exchange_rates (stub_provider gbp_table)
        (upper (args_get ?a ''from_currency'' [])) (isoformat example_hour) initial_state)
      = Inr (Some gbp_table)"
    by (rule get_exchange_rates_table) (simp_all add: initial_state_def stub_provider_def)
  have h7: "map_of gbp_table (upper (args_get ?a ''to_currency'' [])) = Some (round_double (127 / 100))"
    unfolding t by (simp add: gbp_table_def)
  from convert_valid_conversion [OF h1 h2 h3 h4 example_now_key h6 h7, of example_later]
  have "fst (convert_currency (stub_provider gbp_table) ?a example_now example_later initial_state) =
       Conversion
         \<lparr>from_currency = ''GBP'', from_amount = Finite 100,
          to_currency = ''USD'', to_amount = Finite 127,
          exchange_rate = round_double (127 / 100),
          timestamp = isoformat example_later\<rparr>"
    unfolding f t by (simp add: hundred_times_rate round2_127 del: round2.simps)
  with h1 h2 h3 h4 example_now_key h6 h7 show ?thesis
    unfolding f t by blast
qed

lemma convert_currency_missing:
  assumes "upper (args_get a ''from_currency'' []) = [] \<or> upper (args_get a ''to_currency'' []) = []
           \<or> args_get a ''amount'' [] = []"
  shows "convert_currency P a now later s = (MissingParameters, s)"
  using assms unfolding convert_currency_def Let_def by auto

lemma convert_currency_bad_amount:
  assumes "validate_currency (upper (args_get a ''from_currency'' []))"
    and "validate_currency (upper (args_get a ''to_currency'' []))"
    and "args_get a ''amount'' [] \<noteq> []"
    and "case float_of_str (args_get a ''amount'' []) of None \<Rightarrow> True | Some x \<Rightarrow> float_le_zero x"
  shows "convert_currency P a now later s = (InvalidAmount, s)"
proof -
  have "upper (args_get a ''from_currency'' []) \<noteq> []" "upper (args_get a ''to_currency'' []) \<noteq> []"
    using assms(1,2) by (auto dest: validate_currency_nonempty)
  then show ?thesis
    using assms unfolding convert_currency_def Let_def by (auto split: option.splits)
qed

lemma convert_currency_passes:
  assumes "validate_currency (upper (args_get a ''from_currency'' []))"
    and "validate_currency (upper (args_get a ''to_currency'' []))"
    and "float_of_str (args_get a ''amount'' []) = Some amount"
    and "\<not> float_le_zero amount"
  shows "fst (convert_currency P a now later s) \<noteq> InvalidAmount"
  unfolding convert_currency_valid [OF assms]
  by (auto split: sum.splits prod.splits option.splits)

text \<open>
  C4 (amended). The first check of \<^verbatim>\<open>convert_currency\<close> is that all three arguments are
  present and non-empty; only then come the source code, the target code and the amount,
  in this order, the first failure deciding the response. Every one of these rejections
  leaves the state as it was: the memoised fetch is not called and no outbound request is
  made.
\<close>

theorem convert_validation_order:
  fixes a :: args
  defines "from_c \<equiv> upper (args_get a ''from_currency'' [])"
    and "to_c \<equiv> upper (args_get a ''to_currency'' [])"
    and "amount_str \<equiv> args_get a ''amount'' []"
  shows "(from_c = [] \<or> to_c = [] \<or> amount_str = [] \<longrightarrow>
            convert_currency P a now later s = (MissingParameters, s))
       \<and> (from_c \<noteq> [] \<and> to_c \<noteq> [] \<and> amount_str \<noteq> [] \<and> \<not> validate_currency from_c \<longrightarrow>
            convert_currency P a now later s = (UnsupportedCurrency from_c, s))
       \<and> (from_c \<noteq> [] \<and> to_c \<noteq> [] \<and> amount_str \<noteq> [] \<and> validate_currency from_c
            \<and> \<not> validate_currency to_c \<longrightarrow>
            convert_currency P a now later s = (UnsupportedCurrency to_c, s))
       \<and> (from_c \<noteq> [] \<and> to_c \<noteq> [] \<and> amount_str \<noteq> [] \<and> validate_currency from_c
            \<and> validate_currency to_c
            \<and> (case float_of_str amount_str of None \<Rightarrow> True | Some x \<Rightarrow> float_le_zero x) \<longrightarrow>
            convert_currency P a now later s = (InvalidAmount, s))"
proof (intro conjI impI)
  assume "from_c = [] \<or> to_c = [] \<or> amount_str = []"
  then show "convert_currency P a now later s = (MissingParameters, s)"
    unfolding from_c_def to_c_def amount_str_def by (rule convert_currency_missing)
next
  assume "from_c \<noteq> [] \<and> to_c \<noteq> [] \<and> amount_str \<noteq> [] \<and> \<not> validate_currency from_c"
  then show "convert_currency P a now later s = (UnsupportedCurrency from_c, s)"
    unfolding from_c_def to_c_def amount_str_def convert_currency_def Let_def by simp
next
  assume "from_c \<noteq> [] \<and> to_c \<noteq> [] \<and> amount_str \<noteq> [] \<and> validate_currency from_c
            \<and> \<not> validate_currency to_c"
  then show "convert_currency P a now later s = (UnsupportedCurrency to_c, s)"
    unfolding from_c_def to_c_def amount_str_def convert_currency_def Let_def by simp
next
  assume "from_c \<noteq> [] \<and> to_c \<noteq> [] \<and> amount_str \<noteq> [] \<and> validate_currency from_c
            \<and> validate_currency to_c
            \<and> (case float_of_str amount_str of None \<Rightarrow> True | Some x \<Rightarrow> float_le_zero x)"
  then show "convert_currency P a now later s = (InvalidAmount, s)"
    unfolding from_c_def to_c_def amount_str_def by (simp add: convert_currency_bad_amount)
qed

lemma float_of_str_samples:
  "float_of_str ''abc'' = None"
  "float_of_str ''-5'' = Some (Finite (- 5))"
  "float_of_str ''0'' = Some (Finite 0)"
  "float_of_str ''nan'' = Some NaN"
  by code_simp+

theorem convert_validation_order_witness:
  "convert_currency failing_provider (convert_args ''XYZ'' ''ABC'' []) example_now example_later
     initial_state = (MissingParameters, initial_state)
   \<and> convert_currency failing_provider (convert_args ''XYZ'' ''ABC'' ''abc'') example_now
       example_later initial_state = (UnsupportedCurrency ''XYZ'', initial_state)
   \<and> convert_currency failing_provider (convert_args ''GBP'' ''XYZ'' ''abc'') example_now
       example_later initial_state = (UnsupportedCurrency ''XYZ'', initial_state)
   \<and> convert_currency failing_provider (convert_args ''GBP'' ''USD'' ''abc'') example_now
       example_later initial_state = (InvalidAmount, initial_state)
   \<and> convert_currency failing_provider (convert_args ''GBP'' ''USD'' ''-5'') example_now
       example_later initial_state = (InvalidAmount, initial_state)"
proof -
  note u = upper_codes validate_codes float_of_str_samples
  have abc: "upper ''ABC'' = ''ABC''" by code_simp
  show ?thesis
    using
      convert_validation_order [of "convert_args ''XYZ'' ''ABC'' []" failing_provider example_now
        example_later initial_state]
      convert_validation_order [of "convert_args ''XYZ'' ''ABC'' ''abc''" failing_provider
        example_now example_later initial_state]
      convert_validation_order [of "convert_args ''GBP'' ''XYZ'' ''abc''" failing_provider
        example_now example_later initial_state]
      convert_validation_order [of "convert_args ''GBP'' ''USD'' ''abc''" failing_provider
        example_now example_later initial_state]
      convert_validation_order [of "convert_args ''GBP'' ''USD'' ''-5''" failing_provider
        example_now example_later initial_state]
    by (simp add: u abc)
qed

text \<open>
  C4 as stated fails: with the unsupported source code \<^verbatim>\<open>XYZ\<close> and no amount, the response is
  the missing-parameters error, not the unsupported-currency error for \<^verbatim>\<open>XYZ\<close>.
\<close>

theorem convert_validation_order_counterexample:
  "\<not> validate_currency (upper ''XYZ'')
   \<and> convert_currency failing_provider [''from_currency'' \<mapsto> ''XYZ'', ''to_currency'' \<mapsto> ''USD'']
       example_now example_later initial_state = (MissingParameters, initial_state)
   \<and> fst (convert_currency failing_provider
         [''from_currency'' \<mapsto> ''XYZ'', ''to_currency'' \<mapsto> ''USD''] example_now example_later
         initial_state) \<noteq> UnsupportedCurrency ''XYZ''"
proof -
  have "args_get [''from_currency'' \<mapsto> ''XYZ'', ''to_currency'' \<mapsto> ''USD''] ''amount'' [] = []"
    by (simp add: args_get_def)
  then have "convert_currency failing_provider [''from_currency'' \<mapsto> ''XYZ'', ''to_currency'' \<mapsto> ''USD'']
       example_now example_later initial_state = (MissingParameters, initial_state)"
    by (simp add: convert_currency_missing)
  then show ?thesis
    by (simp add: upper_codes validate_codes)
qed

text \<open>
  C5 (amended). For supported codes, a non-empty amount text and a parse result other than
  NaN, the response is the invalid-amount error exactly when the text does not parse
  as a float or the parsed value is not greater than zero.
\<close>

theorem convert_invalid_amount:
  assumes "validate_currency (upper (args_get a ''from_currency'' []))"
    and "validate_currency (upper (args_get a ''to_currency'' []))"
    and "args_get a ''amount'' [] \<noteq> []"
    and "float_of_str (args_get a ''amount'' []) \<noteq> Some NaN"
  shows "fst (convert_currency P a now later s) = InvalidAmount \<longleftrightarrow>
           (case float_of_str (args_get a ''amount'' []) of
              None \<Rightarrow> True
            | Some x \<Rightarrow> \<not> float_gt_zero x)"
proof (cases "float_of_str (args_get a ''amount'' [])")
  case None
  then show ?thesis
    using convert_currency_bad_amount [OF assms(1,2,3), of P now later s] by simp
next
  case (Some x)
  with assms(4) have x: "x \<noteq> NaN" by simp
  show ?thesis
  proof (cases "float_le_zero x")
    case True
    then show ?thesis
      using convert_currency_bad_amount [OF assms(1,2,3), of P now later s] Some
        float_le_iff_not_gt [OF x] by simp
  next
    case False
    then show ?thesis
      using convert_currency_passes [OF assms(1,2) Some False, of P now later s] Some
        float_le_iff_not_gt [OF x] by simp
  qed
qed

theorem convert_invalid_amount_witness:
  "validate_currency (upper (args_get (convert_args ''GBP'' ''USD'' ''-5'') ''from_currency'' []))
   \<and> validate_currency (upper (args_get (convert_args ''GBP'' ''USD'' ''-5'') ''to_currency'' []))
   \<and> args_get (convert_args ''GBP'' ''USD'' ''-5'') ''amount'' [] \<noteq> []
   \<and> float_of_str (args_get (convert_args ''GBP'' ''USD'' ''-5'') ''amount'' []) = Some (Finite (- 5))
   \<and> fst (convert_currency (stub_provider gbp_table) (convert_args ''GBP'' ''USD'' ''-5'')
        example_now example_later initial_state) = InvalidAmount
   \<and> float_of_str (args_get (convert_args ''GBP'' ''USD'' ''100'') ''amount'' []) = Some (Finite 100)
   \<and> fst (convert_currency (stub_provider gbp_table) (convert_args ''GBP'' ''USD'' ''100'')
        example_now example_later initial_state) \<noteq> InvalidAmount"
  using
    convert_invalid_amount [of "convert_args ''GBP'' ''USD'' ''-5''" "stub_provider gbp_table"
      example_now example_later initial_state]
    convert_invalid_amount [of "convert_args ''GBP'' ''USD'' ''100''" "stub_provider gbp_table"
      example_now example_later initial_state]
  by (simp add: upper_codes validate_codes float_of_str_samples float_of_str_100)

text \<open>
  C5 as stated fails: the empty amount text does not parse as a number, and the response
  is the missing-parameters error, not the invalid-amount error.
\<close>

theorem convert_invalid_amount_counterexample:
  "validate_currency (upper ''GBP'') \<and> validate_currency (upper ''USD'')
   \<and> float_of_str [] = None
   \<and> fst (convert_currency (stub_provider gbp_table) (convert_args ''GBP'' ''USD'' [])
        example_now example_later initial_state) = MissingParameters
   \<and> fst (convert_currency (stub_provider gbp_table) (convert_args ''GBP'' ''USD'' [])
        example_now example_later initial_state) \<noteq> InvalidAmount"
  by (simp add: convert_currency_missing upper_codes validate_codes)

text \<open>
  The amount text \<^verbatim>\<open>nan\<close> parses to NaN, for which \<^verbatim>\<open>amount <= 0\<close> is false: the request
  passes the amount check and is converted.
\<close>

lemma gbp_table_usd: "map_of gbp_table ''USD'' = Some (round_double (127 / 100))"
  by (simp add: gbp_table_def)

lemma convert_nan_amount:
  "fst (convert_currency (stub_provider gbp_table) (convert_args ''GBP'' ''USD'' ''nan'')
     example_now example_later initial_state) =
   Conversion
     \<lparr>from_currency = ''GBP'', from_amount = NaN, to_currency = ''USD'', to_amount = NaN,
      exchange_rate = round_double (127 / 100), timestamp = isoformat example_later\<rparr>"
proof -
  let ?a = "convert_args ''GBP'' ''USD'' ''nan''"
  have h: "validate_currency (upper (args_get ?a ''from_currency'' []))"
    "validate_currency (upper (args_get ?a ''to_currency'' []))"
    "float_of_str (args_get ?a ''amount'' []) = Some NaN"
    "\<not> float_le_zero NaN"
    by (simp_all add: upper_codes validate_codes float_of_str_samples)
  have g: "get_exchange_rates (stub_provider gbp_table) ''GBP'' (isoformat example_hour) initial_state
      = (Inr (Some gbp_table),
         \<lparr>cache = [((''GBP'', isoformat example_hour), Some gbp_table)], lookups = 1,
          calls = [(''GBP'', Body (Some ''success'') (JsonObject gbp_table))]\<rparr>)"
    by (simp add: get_exchange_rates_def initial_state_def stub_provider_def maxsize_def)
  show ?thesis
    unfolding convert_currency_valid [OF h]
    by (simp add: example_now_key upper_codes g gbp_table_usd)
qed

lemma get_exchange_rates_hit:
  assumes "map_of (cache s) (b, k) = Some v"
  shows "get_exchange_rates P b k s =
           (Inr v, s\<lparr>lookups := Suc (lookups s),
                      cache := ((b, k), v) # filter (\<lambda>e. fst e \<noteq> (b, k)) (cache s)\<rparr>)"
  using assms by (simp add: get_exchange_rates_def Let_def)

lemma get_exchange_rates_miss_returns:
  assumes "map_of (cache s) (b, k) = None"
    and "get_exchange_rates_body (P (length (calls s)) b) = Inr v"
  shows "get_exchange_rates P b k s =
           (Inr v, s\<lparr>lookups := Suc (lookups s),
                      calls := calls s @ [(b, P (length (calls s)) b)],
                      cache := take maxsize (((b, k), v) # cache s)\<rparr>)"
  using assms by (simp add: get_exchange_rates_def Let_def)

lemma get_exchange_rates_miss_raises:
  assumes "map_of (cache s) (b, k) = None"
    and "get_exchange_rates_body (P (length (calls s)) b) = Inl e"
  shows "get_exchange_rates P b k s =
           (Inl e, s\<lparr>lookups := Suc (lookups s),
                      calls := calls s @ [(b, P (length (calls s)) b)]\<rparr>)"
  using assms by (simp add: get_exchange_rates_def Let_def)

lemma get_exchange_rates_stored:
  assumes "fst (get_exchange_rates P b k s) = Inr v"
  shows "map_of (cache (snd (get_exchange_rates P b k s))) (b, k) = Some v"
proof (cases "map_of (cache s) (b, k)")
  case None
  with assms have "get_exchange_rates_body (P (length (calls s)) b) = Inr v"
    by (simp add: get_exchange_rates_miss)
  from get_exchange_rates_miss_returns [where P = P, OF None this] show ?thesis
    by (simp add: maxsize_def)
next
  case (Some w)
  from get_exchange_rates_hit [OF Some, of P] assms show ?thesis
    by simp
qed

lemma get_exchange_rates_hit_calls:
  assumes "map_of (cache s) (b, k) = Some v"
  shows "fst (get_exchange_rates P b k s) = Inr v"
    and "calls (snd (get_exchange_rates P b k s)) = calls s"
  using get_exchange_rates_hit [OF assms, of P] by simp_all

lemma example_again_key: "get_cache_key example_again = Inr (isoformat example_hour)"
proof -
  have "valid_datetime example_again"
    by (simp add: valid_datetime_def example_again_def MAXORDINAL_def)
  from get_cache_key_valid [OF this] show ?thesis
    by (simp add: example_again_def example_hour_def)
qed

lemma example_later_key: "get_cache_key example_later = Inr (isoformat example_hour)"
proof -
  have "valid_datetime example_later"
    by (simp add: valid_datetime_def example_later_def MAXORDINAL_def)
  from get_cache_key_valid [OF this] show ?thesis
    by (simp add: example_later_def example_hour_def)
qed

lemma get_rates_valid:
  assumes "validate_currency (upper (args_get a ''base_currency'' ''GBP''))"
    and "get_cache_key now = Inr k"
  shows "get_rates P a now later s =
           (case get_exchange_rates P (upper (args_get a ''base_currency'' ''GBP'')) k s of
              (Inl e, s') \<Rightarrow> (InternalServerError e, s')
            | (Inr None, s') \<Rightarrow> (RatesUnavailable, s')
            | (Inr (Some all_rates), s') \<Rightarrow>
                (RatesListing (upper (args_get a ''base_currency'' ''GBP''))
                   (filter (\<lambda>(currency, rate). currency \<in> set SUPPORTED_CURRENCIES) all_rates)
                   (isoformat later), s'))"
  using assms by (simp add: get_rates_def Let_def)

lemma rates_args_get [simp]: "args_get (rates_args b) ''base_currency'' d = b"
  by (simp add: rates_args_def args_get_def)

text \<open>
  C1 as stated fails: the provider fails once and would answer with a table from then on;
  two rates requests within the same hour both get the unavailable response, and only
  one outbound request is made.
\<close>

theorem failure_not_cached_counterexample:
  "fst (run (flaky_provider gbp_table)
         [ListRates (rates_args ''GBP'') example_now example_later,
          ListRates (rates_args ''GBP'') example_again example_again] initial_state)
     = [RatesUnavailable, RatesUnavailable]
   \<and> calls (snd (run (flaky_provider gbp_table)
         [ListRates (rates_args ''GBP'') example_now example_later,
          ListRates (rates_args ''GBP'') example_again example_again] initial_state))
     = [(''GBP'', RequestFailed)]"
proof -
  let ?k = "isoformat example_hour"
  let ?P = "flaky_provider gbp_table"
  let ?s1 = "\<lparr>cache = [((''GBP'', ?k), None)], lookups = Suc 0, calls = [(''GBP'', RequestFailed)]\<rparr>"
  let ?s2 = "\<lparr>cache = [((''GBP'', ?k), None)], lookups = Suc (Suc 0), calls = [(''GBP'', RequestFailed)]\<rparr>"
  have v: "validate_currency (upper (args_get (rates_args ''GBP'') ''base_currency'' ''GBP''))"
    by (simp add: upper_codes validate_codes)
  have g1: "get_exchange_rates ?P ''GBP'' ?k initial_state = (Inr None, ?s1)"
    by (simp add: get_exchange_rates_def initial_state_def flaky_provider_def maxsize_def)
  have g2: "get_exchange_rates ?P ''GBP'' ?k ?s1 = (Inr None, ?s2)"
    by (simp add: get_exchange_rates_def)
  have r1: "get_rates ?P (rates_args ''GBP'') example_now example_later initial_state
      = (RatesUnavailable, ?s1)"
    unfolding get_rates_valid [OF v example_now_key] by (simp add: upper_codes g1)
  have r2: "get_rates ?P (rates_args ''GBP'') example_again example_again ?s1
      = (RatesUnavailable, ?s2)"
    unfolding get_rates_valid [OF v example_again_key] by (simp add: upper_codes g2)
  show ?thesis
    by (simp add: r1 r2)
qed

lemma gbp_fetch:
  "get_exchange_rates (stub_provider gbp_table) ''GBP'' (isoformat example_hour) initial_state
     = (Inr (Some gbp_table),
        \<lparr>cache = [((''GBP'', isoformat example_hour), Some gbp_table)], lookups = Suc 0,
         calls = [(''GBP'', Body (Some ''success'') (JsonObject gbp_table))]\<rparr>)"
  by (simp add: get_exchange_rates_def initial_state_def stub_provider_def maxsize_def)

lemma gbp_hit:
  "get_exchange_rates P ''GBP'' (isoformat example_hour)
     \<lparr>cache = [((''GBP'', isoformat example_hour), Some gbp_table)], lookups = Suc 0,
      calls = [(''GBP'', Body (Some ''success'') (JsonObject gbp_table))]\<rparr>
     = (Inr (Some gbp_table),
        \<lparr>cache = [((''GBP'', isoformat example_hour), Some gbp_table)], lookups = Suc (Suc 0),
         calls = [(''GBP'', Body (Some ''success'') (JsonObject gbp_table))]\<rparr>)"
  by (simp add: get_exchange_rates_def)

lemma sample_args_valid:
  "validate_currency (upper (args_get (convert_args ''GBP'' ''USD'' ''100'') ''from_currency'' []))"
  "validate_currency (upper (args_get (convert_args ''GBP'' ''USD'' ''100'') ''to_currency'' []))"
  "float_of_str (args_get (convert_args ''GBP'' ''USD'' ''100'') ''amount'' []) = Some (Finite 100)"
  "\<not> float_le_zero (Finite 100)"
  by (simp_all add: upper_codes validate_codes float_of_str_100)

lemma sample_conversion:
  "convert_currency (stub_provider gbp_table) (convert_args ''GBP'' ''USD'' ''100'')
     example_now later initial_state =
     (Conversion
        \<lparr>from_currency = ''GBP'', from_amount = Finite 100,
         to_currency = ''USD'', to_amount = Finite 127,
         exchange_rate = round_double (127 / 100),
         timestamp = isoformat later\<rparr>,
      \<lparr>cache = [((''GBP'', isoformat example_hour), Some gbp_table)], lookups = Suc 0,
       calls = [(''GBP'', Body (Some ''success'') (JsonObject gbp_table))]\<rparr>)"
  unfolding convert_currency_valid [OF sample_args_valid]
  by (simp add: example_now_key upper_codes gbp_fetch gbp_table_usd hundred_times_rate round2_127
      del: round2.simps)

lemma sample_conversion_again:
  "convert_currency P (convert_args ''GBP'' ''USD'' ''100'') example_again later
     \<lparr>cache = [((''GBP'', isoformat example_hour), Some gbp_table)], lookups = Suc 0,
      calls = [(''GBP'', Body (Some ''success'') (JsonObject gbp_table))]\<rparr> =
     (Conversion
        \<lparr>from_currency = ''GBP'', from_amount = Finite 100,
         to_currency = ''USD'', to_amount = Finite 127,
         exchange_rate = round_double (127 / 100),
         timestamp = isoformat later\<rparr>,
      \<lparr>cache = [((''GBP'', isoformat example_hour), Some gbp_table)], lookups = Suc (Suc 0),
       calls = [(''GBP'', Body (Some ''success'') (JsonObject gbp_table))]\<rparr>)"
  unfolding convert_currency_valid [OF sample_args_valid]
  by (simp add: example_again_key upper_codes gbp_hit gbp_table_usd hundred_times_rate round2_127
      del: round2.simps)

text \<open>
  C9 (amended). The timestamp of every conversion response is the clock reading taken
  when the response is built, whether the rate table came from the provider just now or
  from the memo table.
\<close>

theorem conversion_timestamp_is_response_time:
  assumes "fst (convert_currency P a now later s) = Conversion c"
  shows "timestamp c = isoformat later"
  using assms unfolding convert_currency_def Let_def
  by (auto split: if_splits option.splits sum.splits prod.splits)

theorem conversion_timestamp_is_response_time_witness:
  "fst (convert_currency (stub_provider gbp_table) (convert_args ''GBP'' ''USD'' ''100'')
        example_now example_later initial_state) =
       Conversion
         \<lparr>from_currency = ''GBP'', from_amount = Finite 100,
          to_currency = ''USD'', to_amount = Finite 127,
          exchange_rate = round_double (127 / 100),
          timestamp = isoformat example_later\<rparr>
   \<and> timestamp \<lparr>from_currency = ''GBP'', from_amount = Finite 100,
          to_currency = ''USD'', to_amount = Finite 127,
          exchange_rate = round_double (127 / 100),
          timestamp = isoformat example_later\<rparr> = isoformat example_later"
proof -
  have c: "fst (convert_currency (stub_provider gbp_table) (convert_args ''GBP'' ''USD'' ''100'')
        example_now example_later initial_state) =
       Conversion
         \<lparr>from_currency = ''GBP'', from_amount = Finite 100,
          to_currency = ''USD'', to_amount = Finite 127,
          exchange_rate = round_double (127 / 100),
          timestamp = isoformat example_later\<rparr>"
    by (simp add: sample_conversion)
  from conversion_timestamp_is_response_time [OF c] c show ?thesis
    by blast
qed

text \<open>
  C9 as stated fails: two identical conversions within one hour. The only outbound request
  is made by the first one, so the table serving the second was produced between the two
  clock readings of the first; the timestamp of the second response is its own, later
  clock reading.
\<close>

theorem snapshot_timestamp_counterexample:
  "calls (snd (run (stub_provider gbp_table)
       [Convert (convert_args ''GBP'' ''USD'' ''100'') example_now example_later] initial_state))
     = [(''GBP'', Body (Some ''success'') (JsonObject gbp_table))]
   \<and> calls (snd (run (stub_provider gbp_table)
       [Convert (convert_args ''GBP'' ''USD'' ''100'') example_now example_later,
        Convert (convert_args ''GBP'' ''USD'' ''100'') example_again example_again]
       initial_state))
     = [(''GBP'', Body (Some ''success'') (JsonObject gbp_table))]
   \<and> fst (run (stub_provider gbp_table)
       [Convert (convert_args ''GBP'' ''USD'' ''100'') example_now example_later,
        Convert (convert_args ''GBP'' ''USD'' ''100'') example_again example_again]
       initial_state) ! 1
     = Conversion
         \<lparr>from_currency = ''GBP'', from_amount = Finite 100,
          to_currency = ''USD'', to_amount = Finite 127,
          exchange_rate = round_double (127 / 100),
          timestamp = isoformat example_again\<rparr>
   \<and> isoformat example_again \<noteq> isoformat example_now
   \<and> isoformat example_again \<noteq> isoformat example_later"
proof -
  have "isoformat example_again \<noteq> isoformat example_now"
    "isoformat example_again \<noteq> isoformat example_later"
    by (simp_all add: isoformat_def example_now_def example_later_def example_again_def)
  then show ?thesis
    by (simp add: sample_conversion sample_conversion_again)
qed

lemma upper_char_idem: "upper_char (upper_char c) = upper_char c"
  by (auto simp: upper_char_def Let_def)

lemma upper_idem: "upper (upper s) = upper s"
  by (simp add: upper_def upper_char_idem)

lemma validate_currency_upper:
  "validate_currency (upper x) \<Longrightarrow> upper x \<in> set SUPPORTED_CURRENCIES"
  by (simp add: validate_currency_def upper_idem)

lemma map_of_filter_other:
  "key' \<noteq> key \<Longrightarrow> map_of (filter (\<lambda>e. fst e \<noteq> key) xs) key' = map_of xs key'"
  by (induction xs) auto

lemma map_of_filter_self:
  "map_of (filter (\<lambda>e. fst e \<noteq> key) xs) key = None"
  by (induction xs) auto

lemma distinct_fst_filter:
  "distinct (map fst xs) \<Longrightarrow> distinct (map fst (filter Q xs))"
  by (induction xs) auto

lemma supported_keys_length:
  assumes "distinct (map fst pre)"
    and "fst ` set pre \<subseteq> (\<lambda>b. (b, k)) ` set SUPPORTED_CURRENCIES"
  shows "length pre \<le> 8"
proof -
  have "length pre = card (set (map fst pre))"
    using distinct_card [OF assms(1)] by simp
  also have "\<dots> \<le> card ((\<lambda>b. (b, k)) ` set SUPPORTED_CURRENCIES)"
    using assms(2) by (intro card_mono) auto
  also have "\<dots> \<le> card (set SUPPORTED_CURRENCIES)"
    by (rule card_image_le) simp
  also have "\<dots> \<le> length SUPPORTED_CURRENCIES"
    by (rule card_length)
  also have "\<dots> = 8"
    by (simp add: SUPPORTED_CURRENCIES_def)
  finally show ?thesis .
qed

lemma fresh_calls_append:
  "fresh_calls D (xs @ ys) \<longleftrightarrow> fresh_calls D xs \<and> fresh_calls (settled D xs) ys"
proof (induction xs arbitrary: D)
  case Nil
  show ?case by (simp add: settled_def)
next
  case (Cons x xs)
  obtain b outcome where x: "x = (b, outcome)" by (cases x)
  have "settled (if returned outcome then insert b D else D) xs = settled D ((b, outcome) # xs)"
    by (auto simp: settled_def)
  then show ?case
    using Cons.IH [of "if returned outcome then insert b D else D"] x by simp
qed

lemma fresh_calls_mono:
  "fresh_calls D' cs \<Longrightarrow> D \<subseteq> D' \<Longrightarrow> fresh_calls D cs"
proof (induction cs arbitrary: D D')
  case Nil
  show ?case by simp
next
  case (Cons x cs)
  obtain b outcome where x: "x = (b, outcome)" by (cases x)
  from Cons.prems x have "b \<notin> D'"
    and f: "fresh_calls (if returned outcome then insert b D' else D') cs"
    by simp_all
  have "(if returned outcome then insert b D else D) \<subseteq> (if returned outcome then insert b D' else D')"
    using Cons.prems(2) by auto
  from Cons.IH [OF f this] \<open>b \<notin> D'\<close> Cons.prems(2) x show ?case
    by auto
qed

lemma fresh_calls_disjoint:
  "fresh_calls D cs \<Longrightarrow> b \<in> D \<Longrightarrow> b \<notin> fst ` set cs"
proof (induction cs arbitrary: D)
  case Nil
  show ?case by simp
next
  case (Cons x cs)
  obtain c outcome where x: "x = (c, outcome)" by (cases x)
  from Cons.prems x have "c \<notin> D"
    and f: "fresh_calls (if returned outcome then insert c D else D) cs"
    by simp_all
  have "b \<in> (if returned outcome then insert c D else D)"
    using Cons.prems(2) by simp
  from Cons.IH [OF f this] \<open>c \<notin> D\<close> Cons.prems(2) x show ?case
    by auto
qed

lemma fresh_calls_no_repeat:
  "fresh_calls D cs \<Longrightarrow> no_repeat_after_return cs"
proof (induction cs arbitrary: D)
  case Nil
  show ?case by simp
next
  case (Cons x cs)
  obtain b outcome where x: "x = (b, outcome)" by (cases x)
  from Cons.prems x have f: "fresh_calls (if returned outcome then insert b D else D) cs"
    by simp
  have "returned outcome \<longrightarrow> b \<notin> fst ` set cs"
    using fresh_calls_disjoint [OF f, of b] by simp
  with Cons.IH [OF f] x show ?case
    by simp
qed

lemma no_repeat_distinct:
  "no_repeat_after_return cs \<Longrightarrow> \<forall>c \<in> set cs. returned (snd c) \<Longrightarrow> distinct (map fst cs)"
  by (induction cs) force+

lemma recent_hit:
  assumes inv: "recent k V s" and b: "b \<in> set SUPPORTED_CURRENCIES"
    and hit: "map_of (cache s) (b, k) = Some v"
  shows "recent k (V(b \<mapsto> v))
           (s\<lparr>lookups := n, cache := ((b, k), v) # filter (\<lambda>e. fst e \<noteq> (b, k)) (cache s)\<rparr>)"
    and "V b = None \<or> V b = Some v"
proof -
  from inv obtain pre post where c: "cache s = pre @ post"
    and d: "distinct (map fst pre)"
    and sub: "fst ` set pre \<subseteq> (\<lambda>b. (b, k)) ` set SUPPORTED_CURRENCIES"
    and val: "\<forall>b v. V b = Some v \<longrightarrow> map_of pre (b, k) = Some v"
    unfolding recent_def by blast
  show old: "V b = None \<or> V b = Some v"
  proof (cases "V b")
    case None
    then show ?thesis by simp
  next
    case (Some w)
    with val have "map_of pre (b, k) = Some w" by simp
    then have "map_of (pre @ post) (b, k) = Some w" by simp
    with hit c Some show ?thesis by simp
  qed
  let ?key = "(b, k)"
  let ?pre = "(?key, v) # filter (\<lambda>e. fst e \<noteq> ?key) pre"
  let ?post = "filter (\<lambda>e. fst e \<noteq> ?key) post"
  have 1: "(?key, v) # filter (\<lambda>e. fst e \<noteq> ?key) (cache s) = ?pre @ ?post"
    by (simp add: c)
  have 2: "distinct (map fst ?pre)"
    using distinct_fst_filter [OF d] by auto
  have 3: "fst ` set ?pre \<subseteq> (\<lambda>b. (b, k)) ` set SUPPORTED_CURRENCIES"
    using sub b by auto
  have 4: "\<forall>b' w. (V(b \<mapsto> v)) b' = Some w \<longrightarrow> map_of ?pre (b', k) = Some w"
  proof (intro allI impI)
    fix b' w
    assume a: "(V(b \<mapsto> v)) b' = Some w"
    show "map_of ?pre (b', k) = Some w"
    proof (cases "b' = b")
      case True
      with a show ?thesis by simp
    next
      case False
      with a val have "map_of pre (b', k) = Some w" by simp
      with False show ?thesis by (simp add: map_of_filter_other)
    qed
  qed
  show "recent k (V(b \<mapsto> v))
           (s\<lparr>lookups := n, cache := ((b, k), v) # filter (\<lambda>e. fst e \<noteq> (b, k)) (cache s)\<rparr>)"
    unfolding recent_def using 1 2 3 4
    by (intro exI [of _ ?pre] exI [of _ ?post]) simp
qed

lemma recent_miss:
  assumes inv: "recent k V s" and b: "b \<in> set SUPPORTED_CURRENCIES"
    and miss: "map_of (cache s) (b, k) = None"
  shows "recent k (V(b \<mapsto> v))
           (s\<lparr>lookups := n, calls := cs, cache := take maxsize (((b, k), v) # cache s)\<rparr>)"
    and "V b = None"
proof -
  from inv obtain pre post where c: "cache s = pre @ post"
    and d: "distinct (map fst pre)"
    and sub: "fst ` set pre \<subseteq> (\<lambda>b. (b, k)) ` set SUPPORTED_CURRENCIES"
    and val: "\<forall>b v. V b = Some v \<longrightarrow> map_of pre (b, k) = Some v"
    unfolding recent_def by blast
  from miss c have nopre: "map_of pre (b, k) = None"
    by (auto simp: map_add_def split: option.splits)
  then show "V b = None"
    using val by (cases "V b") auto
  let ?key = "(b, k)"
  let ?pre = "(?key, v) # pre"
  let ?post = "take (maxsize - length ?pre) post"
  have notin: "?key \<notin> fst ` set pre"
    using nopre by (simp add: map_of_eq_None_iff)
  have 2: "distinct (map fst ?pre)"
    using d notin by simp
  have 3: "fst ` set ?pre \<subseteq> (\<lambda>b. (b, k)) ` set SUPPORTED_CURRENCIES"
    using sub b by auto
  have "length ?pre \<le> 8"
    using 2 3 by (rule supported_keys_length)
  then have 1: "take maxsize ((?key, v) # cache s) = ?pre @ ?post"
    unfolding c maxsize_def by simp
  have 4: "\<forall>b' w. (V(b \<mapsto> v)) b' = Some w \<longrightarrow> map_of ?pre (b', k) = Some w"
    using val by auto
  show "recent k (V(b \<mapsto> v))
           (s\<lparr>lookups := n, calls := cs, cache := take maxsize (((b, k), v) # cache s)\<rparr>)"
    unfolding recent_def using 1 2 3 4
    by (intro exI [of _ ?pre] exI [of _ ?post]) simp
qed

lemma recent_other_fields:
  "recent k V s \<Longrightarrow> recent k V (s\<lparr>lookups := n, calls := cs\<rparr>)"
  by (simp add: recent_def)

lemma fetch_step:
  assumes inv: "recent k V s" and b: "b \<in> set SUPPORTED_CURRENCIES"
  shows "\<exists>V' new. V \<subseteq>\<^sub>m V' \<and> recent k V' (snd (get_exchange_rates P b k s))
           \<and> calls (snd (get_exchange_rates P b k s)) = calls s @ new
           \<and> fresh_calls (dom V) new
           \<and> settled (dom V) new \<subseteq> dom V'
           \<and> fst ` set new \<subseteq> {b}
           \<and> (\<forall>v. fst (get_exchange_rates P b k s) = Inr v \<longrightarrow> V' b = Some v)
           \<and> (\<forall>v. V b = Some v \<longrightarrow> fst (get_exchange_rates P b k s) = Inr v \<and> new = [])"
proof (cases "map_of (cache s) (b, k)")
  case (Some v)
  note g = get_exchange_rates_hit [OF Some, of P]
  note r = recent_hit [OF inv b Some]
  have "V \<subseteq>\<^sub>m V(b \<mapsto> v)"
    using r(2) by (auto simp: map_le_def)
  moreover have "recent k (V(b \<mapsto> v)) (snd (get_exchange_rates P b k s))"
    unfolding g using r(1) by simp
  moreover have "calls (snd (get_exchange_rates P b k s)) = calls s @ []"
    unfolding g by simp
  moreover have "fresh_calls (dom V) []" "fst ` set ([] :: (string \<times> http_outcome) list) \<subseteq> {b}"
    by simp_all
  moreover have "settled (dom V) [] \<subseteq> dom (V(b \<mapsto> v))"
    by (auto simp: settled_def)
  moreover have "\<forall>w. fst (get_exchange_rates P b k s) = Inr w \<longrightarrow> (V(b \<mapsto> v)) b = Some w"
    unfolding g by simp
  moreover have "\<forall>w. V b = Some w \<longrightarrow> fst (get_exchange_rates P b k s) = Inr w \<and> [] = []"
    unfolding g using r(2) by auto
  ultimately show ?thesis
    by blast
next
  case None
  let ?out = "P (length (calls s)) b"
  note r = recent_miss [OF inv b None]
  show ?thesis
  proof (cases "get_exchange_rates_body ?out")
    case (Inl e)
    note g = get_exchange_rates_miss_raises [where P = P, OF None Inl]
    have nr: "\<not> returned ?out"
      by (simp add: returned_def Inl)
    have "V \<subseteq>\<^sub>m V"
      by simp
    moreover have "recent k V (snd (get_exchange_rates P b k s))"
      unfolding g using recent_other_fields [OF inv] by simp
    moreover have "calls (snd (get_exchange_rates P b k s)) = calls s @ [(b, ?out)]"
      unfolding g by simp
    moreover have "fresh_calls (dom V) [(b, ?out)]" "fst ` set [(b, ?out)] \<subseteq> {b}"
      using r(2) by (simp_all add: domIff)
    moreover have "settled (dom V) [(b, ?out)] \<subseteq> dom V"
      using nr by (auto simp: settled_def)
    moreover have "\<forall>w. fst (get_exchange_rates P b k s) = Inr w \<longrightarrow> V b = Some w"
      unfolding g by simp
    moreover have "\<forall>w. V b = Some w \<longrightarrow> fst (get_exchange_rates P b k s) = Inr w \<and> [(b, ?out)] = []"
      using r(2) by simp
    ultimately show ?thesis
      by blast
  next
    case (Inr v)
    note g = get_exchange_rates_miss_returns [where P = P, OF None Inr]
    have "V \<subseteq>\<^sub>m V(b \<mapsto> v)"
      using r(2) by (auto simp: map_le_def)
    moreover have "recent k (V(b \<mapsto> v)) (snd (get_exchange_rates P b k s))"
      unfolding g using r(1) by simp
    moreover have "calls (snd (get_exchange_rates P b k s)) = calls s @ [(b, ?out)]"
      unfolding g by simp
    moreover have "fresh_calls (dom V) [(b, ?out)]" "fst ` set [(b, ?out)] \<subseteq> {b}"
      using r(2) by (simp_all add: domIff)
    moreover have "settled (dom V) [(b, ?out)] \<subseteq> dom (V(b \<mapsto> v))"
      by (auto simp: settled_def)
    moreover have "\<forall>w. fst (get_exchange_rates P b k s) = Inr w \<longrightarrow> (V(b \<mapsto> v)) b = Some w"
      unfolding g by simp
    moreover have "\<forall>w. V b = Some w \<longrightarrow> fst (get_exchange_rates P b k s) = Inr w \<and> [(b, ?out)] = []"
      using r(2) by simp
    ultimately show ?thesis
      by blast
  qed
qed

lemma convert_currency_state:
  assumes "get_cache_key now = Inr k"
  shows "snd (convert_currency P a now later s) = s
       \<or> (upper (args_get a ''from_currency'' []) \<in> set SUPPORTED_CURRENCIES
          \<and> snd (convert_currency P a now later s)
              = snd (get_exchange_rates P (upper (args_get a ''from_currency'' [])) k s))"
proof -
  let ?f = "upper (args_get a ''from_currency'' [])"
  let ?t = "upper (args_get a ''to_currency'' [])"
  let ?x = "args_get a ''amount'' []"
  consider "?f = [] \<or> ?t = [] \<or> ?x = []"
    | "?f \<noteq> []" "?t \<noteq> []" "?x \<noteq> []" "\<not> validate_currency ?f"
    | "?f \<noteq> []" "?t \<noteq> []" "?x \<noteq> []" "validate_currency ?f" "\<not> validate_currency ?t"
    | "?x \<noteq> []" "validate_currency ?f" "validate_currency ?t"
        "case float_of_str ?x of None \<Rightarrow> True | Some y \<Rightarrow> float_le_zero y"
    | y where "validate_currency ?f" "validate_currency ?t" "float_of_str ?x = Some y"
        "\<not> float_le_zero y"
    by (cases "float_of_str ?x") auto
  then show ?thesis
  proof cases
    case 1
    then show ?thesis by (simp add: convert_currency_missing)
  next
    case 2
    then show ?thesis by (simp add: convert_currency_def Let_def)
  next
    case 3
    then show ?thesis by (simp add: convert_currency_def Let_def)
  next
    case 4
    then show ?thesis by (simp add: convert_currency_bad_amount)
  next
    case 5
    have "?f \<in> set SUPPORTED_CURRENCIES"
      using 5(1) by (rule validate_currency_upper)
    moreover have "snd (convert_currency P a now later s) = snd (get_exchange_rates P ?f k s)"
      unfolding convert_currency_valid [OF 5] assms
      by (simp split: prod.splits sum.splits option.splits)
    ultimately show ?thesis by simp
  qed
qed

lemma get_rates_state:
  assumes "get_cache_key now = Inr k"
  shows "snd (get_rates P a now later s) = s
       \<or> (upper (args_get a ''base_currency'' ''GBP'') \<in> set SUPPORTED_CURRENCIES
          \<and> snd (get_rates P a now later s)
              = snd (get_exchange_rates P (upper (args_get a ''base_currency'' ''GBP'')) k s))"
proof (cases "validate_currency (upper (args_get a ''base_currency'' ''GBP''))")
  case False
  then show ?thesis by (simp add: get_rates_def Let_def)
next
  case True
  have "upper (args_get a ''base_currency'' ''GBP'') \<in> set SUPPORTED_CURRENCIES"
    using True by (rule validate_currency_upper)
  moreover have "snd (get_rates P a now later s)
      = snd (get_exchange_rates P (upper (args_get a ''base_currency'' ''GBP'')) k s)"
    unfolding get_rates_valid [OF True assms]
    by (simp split: prod.splits sum.splits option.splits)
  ultimately show ?thesis by simp
qed

lemma handle_state:
  assumes "get_cache_key (request_time r) = Inr k"
  shows "snd (handle P r s) = s
       \<or> (\<exists>b \<in> set SUPPORTED_CURRENCIES. snd (handle P r s) = snd (get_exchange_rates P b k s))"
proof (cases r)
  case (Convert a now later)
  with assms convert_currency_state [of now k P a later s] show ?thesis
    by auto
next
  case (ListRates a now later)
  with assms get_rates_state [of now k P a later s] show ?thesis
    by auto
qed

lemma handle_step:
  assumes inv: "recent k V s" and key: "get_cache_key (request_time r) = Inr k"
  shows "\<exists>V' new. V \<subseteq>\<^sub>m V' \<and> recent k V' (snd (handle P r s))
           \<and> calls (snd (handle P r s)) = calls s @ new
           \<and> fresh_calls (dom V) new
           \<and> settled (dom V) new \<subseteq> dom V'
           \<and> fst ` set new \<subseteq> set SUPPORTED_CURRENCIES"
proof -
  from handle_state [OF key, of P s]
  consider "snd (handle P r s) = s"
    | b where "b \<in> set SUPPORTED_CURRENCIES"
        "snd (handle P r s) = snd (get_exchange_rates P b k s)"
    by blast
  then show ?thesis
  proof cases
    case 1
    have "V \<subseteq>\<^sub>m V" "fresh_calls (dom V) []" "settled (dom V) [] \<subseteq> dom V"
      "calls (snd (handle P r s)) = calls s @ []" "recent k V (snd (handle P r s))"
      "fst ` set ([] :: (string \<times> http_outcome) list) \<subseteq> set SUPPORTED_CURRENCIES"
      using 1 inv by (simp_all add: settled_def)
    then show ?thesis by blast
  next
    case 2
    from fetch_step [OF inv 2(1), of P] obtain V' new where
      "V \<subseteq>\<^sub>m V'" "recent k V' (snd (get_exchange_rates P b k s))"
      "calls (snd (get_exchange_rates P b k s)) = calls s @ new"
      "fresh_calls (dom V) new" "settled (dom V) new \<subseteq> dom V'" "fst ` set new \<subseteq> {b}"
      by blast
    with 2 show ?thesis
      by (intro exI [of _ V'] exI [of _ new]) auto
  qed
qed

lemma run_Cons:
  "run P (r # rs) s =
     (fst (handle P r s) # fst (run P rs (snd (handle P r s))),
      snd (run P rs (snd (handle P r s))))"
  by (simp add: split_beta)

lemma settled_append: "settled D (xs @ ys) = settled (settled D xs) ys"
  by (auto simp: settled_def)

lemma settled_mono: "D \<subseteq> D' \<Longrightarrow> settled D cs \<subseteq> settled D' cs"
  by (auto simp: settled_def)

lemma run_step:
  assumes "recent k V s" and "same_bucket k rs"
  shows "\<exists>V' new. V \<subseteq>\<^sub>m V' \<and> recent k V' (snd (run P rs s))
           \<and> calls (snd (run P rs s)) = calls s @ new
           \<and> fresh_calls (dom V) new
           \<and> settled (dom V) new \<subseteq> dom V'
           \<and> fst ` set new \<subseteq> set SUPPORTED_CURRENCIES"
  using assms
proof (induction rs arbitrary: V s)
  case Nil
  have "V \<subseteq>\<^sub>m V" "fresh_calls (dom V) []" "settled (dom V) [] \<subseteq> dom V"
    "calls (snd (run P [] s)) = calls s @ []" "recent k V (snd (run P [] s))"
    "fst ` set ([] :: (string \<times> http_outcome) list) \<subseteq> set SUPPORTED_CURRENCIES"
    using Nil.prems(1) by (simp_all add: settled_def)
  then show ?case by blast
next
  case (Cons r rs)
  from Cons.prems(2) have key: "get_cache_key (request_time r) = Inr k"
    and rest: "same_bucket k rs"
    by (simp_all add: same_bucket_def)
  let ?s1 = "snd (handle P r s)"
  from handle_step [OF Cons.prems(1) key, of P] obtain V1 new1 where
    h: "V \<subseteq>\<^sub>m V1" "recent k V1 ?s1" "calls ?s1 = calls s @ new1"
      "fresh_calls (dom V) new1" "settled (dom V) new1 \<subseteq> dom V1"
      "fst ` set new1 \<subseteq> set SUPPORTED_CURRENCIES"
    by blast
  from Cons.IH [OF h(2) rest] obtain V2 new2 where
    i: "V1 \<subseteq>\<^sub>m V2" "recent k V2 (snd (run P rs ?s1))"
      "calls (snd (run P rs ?s1)) = calls ?s1 @ new2"
      "fresh_calls (dom V1) new2" "settled (dom V1) new2 \<subseteq> dom V2"
      "fst ` set new2 \<subseteq> set SUPPORTED_CURRENCIES"
    by blast
  have s: "snd (run P (r # rs) s) = snd (run P rs ?s1)"
    unfolding run_Cons by simp
  have "V \<subseteq>\<^sub>m V2"
    using h(1) i(1) by (rule map_le_trans)
  moreover have "recent k V2 (snd (run P (r # rs) s))"
    unfolding s by (rule i(2))
  moreover have "calls (snd (run P (r # rs) s)) = calls s @ (new1 @ new2)"
    unfolding s by (simp add: i(3) h(3))
  moreover have "fresh_calls (dom V) (new1 @ new2)"
    unfolding fresh_calls_append using h(4) fresh_calls_mono [OF i(4) h(5)] by simp
  moreover have "settled (dom V) (new1 @ new2) \<subseteq> dom V2"
    unfolding settled_append using settled_mono [OF h(5), of new2] i(5) by blast
  moreover have "fst ` set (new1 @ new2) \<subseteq> set SUPPORTED_CURRENCIES"
    using h(6) i(6) by auto
  ultimately show ?case
    by blast
qed

lemma recent_start: "recent k Map.empty s"
proof -
  have "cache s = [] @ cache s" "distinct (map fst ([] :: ((string \<times> iso_text) \<times> rates option) list))"
    "fst ` set ([] :: ((string \<times> iso_text) \<times> rates option) list)
       \<subseteq> (\<lambda>b. (b, k)) ` set SUPPORTED_CURRENCIES"
    "\<forall>b v. (Map.empty :: string \<rightharpoonup> rates option) b = Some v \<longrightarrow> map_of [] (b, k) = Some v"
    by simp_all
  then show ?thesis
    unfolding recent_def by blast
qed

lemma returned_iff: "returned outcome \<longleftrightarrow> outcome \<noteq> NotAnObject"
  by (cases outcome) (auto simp: returned_def split: json_rates.splits)

lemma fetch_calls_from_provider:
  "\<exists>new. calls (snd (get_exchange_rates P b k s)) = calls s @ new
         \<and> (\<forall>c \<in> set new. \<exists>n. snd c = P n (fst c))"
proof (cases "map_of (cache s) (b, k)")
  case (Some v)
  have "calls (snd (get_exchange_rates P b k s)) = calls s @ []"
    using get_exchange_rates_hit [OF Some, of P] by simp
  then show ?thesis
    by (intro exI [of _ "[]"]) simp
next
  case None
  let ?out = "P (length (calls s)) b"
  have "calls (snd (get_exchange_rates P b k s)) = calls s @ [(b, ?out)]"
  proof (cases "get_exchange_rates_body ?out")
    case (Inl e)
    from get_exchange_rates_miss_raises [where P = P, OF None Inl] show ?thesis
      by simp
  next
    case (Inr v)
    from get_exchange_rates_miss_returns [where P = P, OF None Inr] show ?thesis
      by simp
  qed
  moreover have "\<forall>c \<in> set [(b, ?out)]. \<exists>n. snd c = P n (fst c)"
    by auto
  ultimately show ?thesis
    by blast
qed

lemma handle_calls_from_provider:
  assumes "get_cache_key (request_time r) = Inr k"
  shows "\<exists>new. calls (snd (handle P r s)) = calls s @ new
           \<and> (\<forall>c \<in> set new. \<exists>n. snd c = P n (fst c))"
proof -
  from handle_state [OF assms, of P s]
  consider "snd (handle P r s) = s"
    | b where "snd (handle P r s) = snd (get_exchange_rates P b k s)"
    by blast
  then show ?thesis
  proof cases
    case 1
    then have "calls (snd (handle P r s)) = calls s @ []"
      by simp
    then show ?thesis
      by (intro exI [of _ "[]"]) simp
  next
    case 2
    with fetch_calls_from_provider [of P b k s] show ?thesis
      by simp
  qed
qed

lemma run_calls_from_provider:
  assumes "same_bucket k rs"
  shows "\<exists>new. calls (snd (run P rs s)) = calls s @ new
           \<and> (\<forall>c \<in> set new. \<exists>n. snd c = P n (fst c))"
  using assms
proof (induction rs arbitrary: s)
  case Nil
  have "calls (snd (run P [] s)) = calls s @ []"
    by simp
  then show ?case
    by (intro exI [of _ "[]"]) simp
next
  case (Cons r rs)
  from Cons.prems have key: "get_cache_key (request_time r) = Inr k"
    and rest: "same_bucket k rs"
    by (simp_all add: same_bucket_def)
  define s1 where "s1 = snd (handle P r s)"
  from handle_calls_from_provider [OF key, of P s] obtain new1 where
    h: "calls s1 = calls s @ new1" "\<forall>c \<in> set new1. \<exists>n. snd c = P n (fst c)"
    unfolding s1_def by blast
  from Cons.IH [OF rest, of s1] obtain new2 where
    i: "calls (snd (run P rs s1)) = calls s1 @ new2" "\<forall>c \<in> set new2. \<exists>n. snd c = P n (fst c)"
    by blast
  have "snd (run P (r # rs) s) = snd (run P rs s1)"
    unfolding run_Cons s1_def by simp
  then have "calls (snd (run P (r # rs) s)) = calls s @ (new1 @ new2)"
    by (simp add: i(1) h(1))
  moreover have "\<forall>c \<in> set (new1 @ new2). \<exists>n. snd c = P n (fst c)"
    using h(2) i(2) by auto
  ultimately show ?case
    by blast
qed

lemma sample_same_bucket:
  "same_bucket (isoformat example_hour)
     [Convert (convert_args ''GBP'' ''USD'' ''100'') example_now example_later,
      Convert (convert_args ''GBP'' ''USD'' ''100'') example_again example_again]"
  by (simp add: same_bucket_def example_now_key example_again_key)

lemma stub_provider_answers: "stub_provider t n b \<noteq> NotAnObject"
  by (simp add: stub_provider_def)

text \<open>
  C2. In a sequence of requests that all read the clock within one hour, once an outbound
  request for a base currency has returned (with a table or with the failure result), no
  later request of the sequence asks the provider for that base currency again: it is
  served from the memo table. So when the provider answers every outbound request with a
  request failure or a JSON object, each base currency is asked for at most once in the
  whole sequence. This holds from any state of the memo table.
\<close>

theorem one_returning_fetch_per_bucket:
  assumes "same_bucket k rs"
  shows "\<exists>new. calls (snd (run P rs s)) = calls s @ new
           \<and> no_repeat_after_return new
           \<and> ((\<forall>c \<in> set new. returned (snd c)) \<longrightarrow> distinct (map fst new))
           \<and> ((\<forall>n b. P n b \<noteq> NotAnObject) \<longrightarrow> distinct (map fst new))"
proof -
  from run_step [OF recent_start assms, of P s] obtain V' new where
    n: "calls (snd (run P rs s)) = calls s @ new"
      "fresh_calls (dom (Map.empty :: string \<rightharpoonup> rates option)) new"
    by blast
  from run_calls_from_provider [OF assms, of P s] n(1) have
    p: "\<forall>c \<in> set new. \<exists>n. snd c = P n (fst c)"
    by auto
  from n(2) have r: "no_repeat_after_return new"
    by (rule fresh_calls_no_repeat)
  have d: "(\<forall>c \<in> set new. returned (snd c)) \<longrightarrow> distinct (map fst new)"
    using no_repeat_distinct [OF r] by simp
  have "(\<forall>n b. P n b \<noteq> NotAnObject) \<longrightarrow> (\<forall>c \<in> set new. returned (snd c))"
  proof (intro impI ballI)
    fix c
    assume a: "\<forall>n b. P n b \<noteq> NotAnObject" and c: "c \<in> set new"
    from p c obtain n where "snd c = P n (fst c)"
      by blast
    with a show "returned (snd c)"
      by (simp add: returned_iff)
  qed
  with d have "(\<forall>n b. P n b \<noteq> NotAnObject) \<longrightarrow> distinct (map fst new)"
    by blast
  with n(1) r d show ?thesis
    by (intro exI [of _ new]) simp
qed

theorem one_returning_fetch_per_bucket_witness:
  "same_bucket (isoformat example_hour)
     [Convert (convert_args ''GBP'' ''USD'' ''100'') example_now example_later,
      Convert (convert_args ''GBP'' ''USD'' ''100'') example_again example_again]
   \<and> (\<forall>n b. stub_provider gbp_table n b \<noteq> NotAnObject)
   \<and> calls (snd (run (stub_provider gbp_table)
        [Convert (convert_args ''GBP'' ''USD'' ''100'') example_now example_later,
         Convert (convert_args ''GBP'' ''USD'' ''100'') example_again example_again]
        initial_state))
      = [(''GBP'', Body (Some ''success'') (JsonObject gbp_table))]
   \<and> (\<exists>new. calls (snd (run (stub_provider gbp_table)
        [Convert (convert_args ''GBP'' ''USD'' ''100'') example_now example_later,
         Convert (convert_args ''GBP'' ''USD'' ''100'') example_again example_again]
        initial_state)) = calls initial_state @ new
        \<and> no_repeat_after_return new
        \<and> distinct (map fst new))"
proof -
  have c: "calls (snd (run (stub_provider gbp_table)
        [Convert (convert_args ''GBP'' ''USD'' ''100'') example_now example_later,
         Convert (convert_args ''GBP'' ''USD'' ''100'') example_again example_again]
        initial_state))
      = [(''GBP'', Body (Some ''success'') (JsonObject gbp_table))]"
    by (simp add: sample_conversion sample_conversion_again)
  have a: "\<forall>n b. stub_provider gbp_table n b \<noteq> NotAnObject"
    by (simp add: stub_provider_answers)
  from one_returning_fetch_per_bucket [OF sample_same_bucket, of "stub_provider gbp_table"
      initial_state] a
  have "\<exists>new. calls (snd (run (stub_provider gbp_table)
        [Convert (convert_args ''GBP'' ''USD'' ''100'') example_now example_later,
         Convert (convert_args ''GBP'' ''USD'' ''100'') example_again example_again]
        initial_state)) = calls initial_state @ new
        \<and> no_repeat_after_return new
        \<and> distinct (map fst new)"
    by blast
  with sample_same_bucket a c show ?thesis
    by blast
qed

lemma odd_fetch:
  "get_exchange_rates odd_provider b k s =
     (case map_of (cache s) (b, k) of
        Some v \<Rightarrow> (Inr v, s\<lparr>lookups := Suc (lookups s),
                     cache := ((b, k), v) # filter (\<lambda>e. fst e \<noteq> (b, k)) (cache s)\<rparr>)
      | None \<Rightarrow> (Inl AttributeError,
                  s\<lparr>lookups := Suc (lookups s), calls := calls s @ [(b, NotAnObject)]\<rparr>))"
  by (simp add: get_exchange_rates_def odd_provider_def Let_def split: option.splits)

text \<open>
  A fetch whose body raises stores nothing: when the provider answers with a JSON body that
  is not an object, the next conversion of the same hour asks the provider again.
\<close>

lemma raising_fetch_is_retried:
  "same_bucket (isoformat example_hour)
     [Convert (convert_args ''GBP'' ''USD'' ''100'') example_now example_later,
      Convert (convert_args ''GBP'' ''USD'' ''100'') example_again example_again]
   \<and> fst (run odd_provider
        [Convert (convert_args ''GBP'' ''USD'' ''100'') example_now example_later,
         Convert (convert_args ''GBP'' ''USD'' ''100'') example_again example_again]
        initial_state)
      = [InternalServerError AttributeError, InternalServerError AttributeError]
   \<and> calls (snd (run odd_provider
        [Convert (convert_args ''GBP'' ''USD'' ''100'') example_now example_later,
         Convert (convert_args ''GBP'' ''USD'' ''100'') example_again example_again]
        initial_state))
      = [(''GBP'', NotAnObject), (''GBP'', NotAnObject)]"
proof -
  let ?a = "convert_args ''GBP'' ''USD'' ''100''"
  let ?s1 = "\<lparr>cache = [], lookups = Suc 0, calls = [(''GBP'', NotAnObject)]\<rparr>"
  let ?s2 = "\<lparr>cache = [], lookups = Suc (Suc 0),
              calls = [(''GBP'', NotAnObject), (''GBP'', NotAnObject)]\<rparr>"
  have 1: "convert_currency odd_provider ?a example_now example_later initial_state
      = (InternalServerError AttributeError, ?s1)"
    unfolding convert_currency_valid [OF sample_args_valid]
    by (simp add: example_now_key upper_codes odd_fetch initial_state_def)
  have 2: "convert_currency odd_provider ?a example_again example_again ?s1
      = (InternalServerError AttributeError, ?s2)"
    unfolding convert_currency_valid [OF sample_args_valid]
    by (simp add: example_again_key upper_codes odd_fetch)
  show ?thesis
    using sample_same_bucket by (simp add: 1 2)
qed

lemma convert_conversion_inv:
  assumes c: "fst (convert_currency P a now later s) = Conversion c"
    and key: "get_cache_key now = Inr k"
  obtains amount t rate where
    "validate_currency (upper (args_get a ''from_currency'' []))"
    "validate_currency (upper (args_get a ''to_currency'' []))"
    "float_of_str (args_get a ''amount'' []) = Some amount"
    "\<not> float_le_zero amount"
    "fst (get_exchange_rates P (upper (args_get a ''from_currency'' [])) k s) = Inr (Some t)"
    "map_of t (upper (args_get a ''to_currency'' [])) = Some rate"
    "snd (convert_currency P a now later s)
       = snd (get_exchange_rates P (upper (args_get a ''from_currency'' [])) k s)"
    "c = \<lparr>from_currency = upper (args_get a ''from_currency'' []),
          from_amount = amount,
          to_currency = upper (args_get a ''to_currency'' []),
          to_amount = round2 (float_mul amount rate),
          exchange_rate = rate,
          timestamp = isoformat later\<rparr>"
proof -
  let ?f = "upper (args_get a ''from_currency'' [])"
  let ?t = "upper (args_get a ''to_currency'' [])"
  let ?x = "args_get a ''amount'' []"
  consider "?f = [] \<or> ?t = [] \<or> ?x = []"
    | "?f \<noteq> []" "?t \<noteq> []" "?x \<noteq> []" "\<not> validate_currency ?f"
    | "?f \<noteq> []" "?t \<noteq> []" "?x \<noteq> []" "validate_currency ?f" "\<not> validate_currency ?t"
    | "?x \<noteq> []" "validate_currency ?f" "validate_currency ?t"
        "case float_of_str ?x of None \<Rightarrow> True | Some y \<Rightarrow> float_le_zero y"
    | y where "validate_currency ?f" "validate_currency ?t" "float_of_str ?x = Some y"
        "\<not> float_le_zero y"
    by (cases "float_of_str ?x") auto
  then show ?thesis
  proof cases
    case 1
    with c show ?thesis by (simp add: convert_currency_missing)
  next
    case 2
    with c show ?thesis by (simp add: convert_currency_def Let_def)
  next
    case 3
    with c show ?thesis by (simp add: convert_currency_def Let_def)
  next
    case 4
    with c show ?thesis by (simp add: convert_currency_bad_amount)
  next
    case 5
    note v = convert_currency_valid [OF 5, of P now later s]
    obtain r s' where g: "get_exchange_rates P ?f k s = (r, s')"
      by (cases "get_exchange_rates P ?f k s")
    from c obtain t where r: "r = Inr (Some t)"
      by (auto simp: v key g split: sum.splits option.splits)
    from c obtain rate where m: "map_of t ?t = Some rate"
      by (auto simp: v key g r split: option.splits)
    have "fst (get_exchange_rates P ?f k s) = Inr (Some t)"
      by (simp add: g r)
    moreover have "snd (convert_currency P a now later s) = snd (get_exchange_rates P ?f k s)"
      by (simp add: v key g r m)
    moreover have "c = \<lparr>from_currency = ?f, from_amount = y, to_currency = ?t,
          to_amount = round2 (float_mul y rate), exchange_rate = rate,
          timestamp = isoformat later\<rparr>"
      using c by (simp add: v key g r m)
    ultimately show ?thesis
      using that [OF 5 _ m] by blast
  qed
qed

text \<open>
  C8. When a conversion succeeds, the same conversion requested again within the same hour,
  after any requests of that hour in between, gets the same response but for the
  timestamp (the same exchange rate and the same target amount) and makes no outbound
  request.
\<close>

theorem convert_idempotent_in_bucket:
  assumes k1: "get_cache_key now1 = Inr k" and k2: "get_cache_key now2 = Inr k"
    and mid: "same_bucket k mid"
    and first: "fst (convert_currency P a now1 later1 s) = Conversion c"
  shows "fst (convert_currency P a now2 later2
                (snd (run P mid (snd (convert_currency P a now1 later1 s)))))
           = Conversion (c\<lparr>timestamp := isoformat later2\<rparr>)
       \<and> calls (snd (convert_currency P a now2 later2
                (snd (run P mid (snd (convert_currency P a now1 later1 s))))))
           = calls (snd (run P mid (snd (convert_currency P a now1 later1 s))))"
proof -
  let ?f = "upper (args_get a ''from_currency'' [])"
  let ?t = "upper (args_get a ''to_currency'' [])"
  define s1 where "s1 = snd (convert_currency P a now1 later1 s)"
  define s2 where "s2 = snd (run P mid s1)"
  from convert_conversion_inv [OF first k1] obtain amount t rate where
    v: "validate_currency ?f" "validate_currency ?t"
      "float_of_str (args_get a ''amount'' []) = Some amount" "\<not> float_le_zero amount"
    and g1: "fst (get_exchange_rates P ?f k s) = Inr (Some t)"
    and m: "map_of t ?t = Some rate"
    and s1: "s1 = snd (get_exchange_rates P ?f k s)"
    and c: "c = \<lparr>from_currency = ?f, from_amount = amount, to_currency = ?t,
          to_amount = round2 (float_mul amount rate), exchange_rate = rate,
          timestamp = isoformat later1\<rparr>"
    unfolding s1_def by blast
  have f: "?f \<in> set SUPPORTED_CURRENCIES"
    using v(1) by (rule validate_currency_upper)
  from fetch_step [OF recent_start f, of k P s] g1 obtain V1 where
    V1: "recent k V1 s1" "V1 ?f = Some (Some t)"
    unfolding s1 by blast
  from run_step [OF V1(1) mid, of P] obtain V2 where
    V2: "V1 \<subseteq>\<^sub>m V2" "recent k V2 s2"
    unfolding s2_def by blast
  from V1(2) V2(1) have "V2 ?f = Some (Some t)"
    by (auto simp: map_le_def dom_def)
  with fetch_step [OF V2(2) f, of P] have
    g2: "fst (get_exchange_rates P ?f k s2) = Inr (Some t)"
      "calls (snd (get_exchange_rates P ?f k s2)) = calls s2"
    by auto
  obtain s3 where g3: "get_exchange_rates P ?f k s2 = (Inr (Some t), s3)"
    using g2(1) by (cases "get_exchange_rates P ?f k s2") simp
  have "convert_currency P a now2 later2 s2
      = (Conversion (c\<lparr>timestamp := isoformat later2\<rparr>), s3)"
    by (simp add: convert_currency_valid [OF v] k2 g3 m c)
  with g2(2) g3 show ?thesis
    unfolding s1_def [symmetric] s2_def [symmetric] by simp
qed

theorem convert_idempotent_in_bucket_witness:
  "get_cache_key example_now = Inr (isoformat example_hour)
   \<and> get_cache_key example_again = Inr (isoformat example_hour)
   \<and> same_bucket (isoformat example_hour) [ListRates (rates_args ''GBP'') example_later example_later]
   \<and> fst (convert_currency (stub_provider gbp_table) (convert_args ''GBP'' ''USD'' ''100'')
        example_now example_later initial_state)
      = Conversion
         \<lparr>from_currency = ''GBP'', from_amount = Finite 100,
          to_currency = ''USD'', to_amount = Finite 127,
          exchange_rate = round_double (127 / 100),
          timestamp = isoformat example_later\<rparr>
   \<and> fst (convert_currency (stub_provider gbp_table) (convert_args ''GBP'' ''USD'' ''100'')
        example_again example_again
        (snd (run (stub_provider gbp_table)
           [ListRates (rates_args ''GBP'') example_later example_later]
           (snd (convert_currency (stub_provider gbp_table)
              (convert_args ''GBP'' ''USD'' ''100'') example_now example_later initial_state)))))
      = Conversion
         \<lparr>from_currency = ''GBP'', from_amount = Finite 100,
          to_currency = ''USD'', to_amount = Finite 127,
          exchange_rate = round_double (127 / 100),
          timestamp = isoformat example_again\<rparr>"
proof -
  have m: "same_bucket (isoformat example_hour)
      [ListRates (rates_args ''GBP'') example_later example_later]"
    by (simp add: same_bucket_def example_later_key)
  have c: "fst (convert_currency (stub_provider gbp_table) (convert_args ''GBP'' ''USD'' ''100'')
        example_now example_later initial_state)
      = Conversion
         \<lparr>from_currency = ''GBP'', from_amount = Finite 100,
          to_currency = ''USD'', to_amount = Finite 127,
          exchange_rate = round_double (127 / 100),
          timestamp = isoformat example_later\<rparr>"
    by (simp add: sample_conversion)
  from convert_idempotent_in_bucket [OF example_now_key example_again_key m c, of example_again]
    example_now_key example_again_key m c
  show ?thesis
    by simp
qed

lemma get_rates_unavailable_inv:
  assumes u: "fst (get_rates P a now later s) = RatesUnavailable"
    and key: "get_cache_key now = Inr k"
  shows "validate_currency (upper (args_get a ''base_currency'' ''GBP''))"
    and "fst (get_exchange_rates P (upper (args_get a ''base_currency'' ''GBP'')) k s) = Inr None"
    and "snd (get_rates P a now later s)
       = snd (get_exchange_rates P (upper (args_get a ''base_currency'' ''GBP'')) k s)"
proof -
  let ?b = "upper (args_get a ''base_currency'' ''GBP'')"
  show v: "validate_currency ?b"
    using u by (cases "validate_currency ?b") (simp_all add: get_rates_def Let_def)
  note e = get_rates_valid [OF v key, of P later s]
  obtain r s' where g: "get_exchange_rates P ?b k s = (r, s')"
    by (cases "get_exchange_rates P ?b k s")
  from u have r: "r = Inr None"
    by (auto simp: e g split: sum.splits option.splits)
  show "fst (get_exchange_rates P ?b k s) = Inr None"
    by (simp add: g r)
  show "snd (get_rates P a now later s) = snd (get_exchange_rates P ?b k s)"
    by (simp add: e g r)
qed

text \<open>
  C1 (amended). When a rates request gets the unavailable response because the fetch yielded
  the failure result (\<^verbatim>\<open>None\<close>), that result is stored under the key: the same request
  made again within the same hour, after any requests of that hour in between, gets
  the unavailable response again and makes no outbound request, whatever the provider
  would answer by then.
\<close>

theorem failure_result_is_cached:
  assumes k1: "get_cache_key now1 = Inr k" and k2: "get_cache_key now2 = Inr k"
    and mid: "same_bucket k mid"
    and first: "fst (get_rates P a now1 later1 s) = RatesUnavailable"
  shows "fst (get_rates P a now2 later2 (snd (run P mid (snd (get_rates P a now1 later1 s)))))
           = RatesUnavailable
       \<and> calls (snd (get_rates P a now2 later2
                (snd (run P mid (snd (get_rates P a now1 later1 s))))))
           = calls (snd (run P mid (snd (get_rates P a now1 later1 s))))"
proof -
  let ?b = "upper (args_get a ''base_currency'' ''GBP'')"
  define s1 where "s1 = snd (get_rates P a now1 later1 s)"
  define s2 where "s2 = snd (run P mid s1)"
  note i = get_rates_unavailable_inv [OF first k1]
  have s1: "s1 = snd (get_exchange_rates P ?b k s)"
    unfolding s1_def by (rule i(3))
  have b: "?b \<in> set SUPPORTED_CURRENCIES"
    using i(1) by (rule validate_currency_upper)
  from fetch_step [OF recent_start b, of k P s] i(2) obtain V1 where
    V1: "recent k V1 s1" "V1 ?b = Some None"
    unfolding s1 by blast
  from run_step [OF V1(1) mid, of P] obtain V2 where
    V2: "V1 \<subseteq>\<^sub>m V2" "recent k V2 s2"
    unfolding s2_def by blast
  from V1(2) V2(1) have "V2 ?b = Some None"
    by (auto simp: map_le_def dom_def)
  with fetch_step [OF V2(2) b, of P] have
    g2: "fst (get_exchange_rates P ?b k s2) = Inr None"
      "calls (snd (get_exchange_rates P ?b k s2)) = calls s2"
    by auto
  obtain s3 where g3: "get_exchange_rates P ?b k s2 = (Inr None, s3)"
    using g2(1) by (cases "get_exchange_rates P ?b k s2") simp
  have "get_rates P a now2 later2 s2 = (RatesUnavailable, s3)"
    by (simp add: get_rates_valid [OF i(1) k2] g3)
  with g2(2) g3 show ?thesis
    unfolding s1_def [symmetric] s2_def [symmetric] by simp
qed

lemma flaky_first:
  "get_rates (flaky_provider gbp_table) (rates_args ''GBP'') example_now example_later initial_state
     = (RatesUnavailable,
        \<lparr>cache = [((''GBP'', isoformat example_hour), None)], lookups = Suc 0,
         calls = [(''GBP'', RequestFailed)]\<rparr>)"
proof -
  have v: "validate_currency (upper (args_get (rates_args ''GBP'') ''base_currency'' ''GBP''))"
    by (simp add: upper_codes validate_codes)
  have g: "get_exchange_rates (flaky_provider gbp_table) ''GBP'' (isoformat example_hour)
      initial_state
      = (Inr None, \<lparr>cache = [((''GBP'', isoformat example_hour), None)], lookups = Suc 0,
         calls = [(''GBP'', RequestFailed)]\<rparr>)"
    by (simp add: get_exchange_rates_def initial_state_def flaky_provider_def maxsize_def)
  show ?thesis
    by (simp add: get_rates_valid [OF v example_now_key] upper_codes g)
qed

theorem failure_result_is_cached_witness:
  "get_cache_key example_now = Inr (isoformat example_hour)
   \<and> get_cache_key example_again = Inr (isoformat example_hour)
   \<and> same_bucket (isoformat example_hour)
       [Convert (convert_args ''GBP'' ''USD'' ''100'') example_later example_later]
   \<and> fst (get_rates (flaky_provider gbp_table) (rates_args ''GBP'') example_now example_later
        initial_state) = RatesUnavailable
   \<and> fst (get_rates (flaky_provider gbp_table) (rates_args ''GBP'') example_again example_again
        (snd (run (flaky_provider gbp_table)
           [Convert (convert_args ''GBP'' ''USD'' ''100'') example_later example_later]
           (snd (get_rates (flaky_provider gbp_table) (rates_args ''GBP'') example_now
              example_later initial_state))))) = RatesUnavailable
   \<and> calls (snd (get_rates (flaky_provider gbp_table) (rates_args ''GBP'') example_again
        example_again
        (snd (run (flaky_provider gbp_table)
           [Convert (convert_args ''GBP'' ''USD'' ''100'') example_later example_later]
           (snd (get_rates (flaky_provider gbp_table) (rates_args ''GBP'') example_now
              example_later initial_state))))))
      = calls (snd (run (flaky_provider gbp_table)
           [Convert (convert_args ''GBP'' ''USD'' ''100'') example_later example_later]
           (snd (get_rates (flaky_provider gbp_table) (rates_args ''GBP'') example_now
              example_later initial_state))))"
proof -
  have m: "same_bucket (isoformat example_hour)
      [Convert (convert_args ''GBP'' ''USD'' ''100'') example_later example_later]"
    by (simp add: same_bucket_def example_later_key)
  have f: "fst (get_rates (flaky_provider gbp_table) (rates_args ''GBP'') example_now
      example_later initial_state) = RatesUnavailable"
    by (simp add: flaky_first)
  from failure_result_is_cached [OF example_now_key example_again_key m f, of example_again]
    example_now_key example_again_key m f
  show ?thesis
    by blast
qed

end
